theory Spec2Isabelle
  imports Complex_Main
begin

section \<open>Numbers\<close>

text \<open>
  The program computes with JavaScript numbers. They are modelled as real numbers: every
  arithmetic operation is the exact one, and the IEEE special values (NaN, the infinities,
  and the negative zero except in the arguments of \<^verbatim>\<open>Math.atan2\<close>) are outside the
  model. Where the truth of a theorem depends on the value of a quotient, the theorem
  carries a hypothesis under which the divisor is not zero, or proves that it is not, so
  that it never rests on the value HOL gives to a division by zero.
\<close>

text \<open>\<^verbatim>\<open>a || b\<close> on numbers: \<^verbatim>\<open>b\<close> when \<^verbatim>\<open>a\<close> is falsy, that is zero.\<close>

definition js_or :: "real \<Rightarrow> real \<Rightarrow> real" where
  "js_or a b = (if a = 0 then b else a)"

text \<open>
  The one place where the sign of a zero is read is \<^verbatim>\<open>Math.atan2\<close>: its result at
  \<open>y = 0\<close> depends on whether \<open>y\<close> and \<open>x\<close> are \<open>+0\<close> or \<open>-0\<close>. The arguments of
  \<^verbatim>\<open>Math.atan2\<close> are therefore numbers with their sign bit: for a number that is not zero
  the bit says that it is negative, for a zero it tells \<open>-0\<close> from \<open>+0\<close>. A number that
  comes from the configuration, from the simulation state or from \<^verbatim>\<open>Math.sin\<close> and
  \<^verbatim>\<open>Math.cos\<close> of these has the zero \<open>+0\<close>; negation flips the bit, and the bit of a
  product is the exclusive or of the bits of its factors, as in IEEE arithmetic.
\<close>

type_synonym signed = "real \<times> bool"

definition plain :: "real \<Rightarrow> signed" where
  "plain x = (x, x < 0)"

definition s_neg :: "signed \<Rightarrow> signed" where
  "s_neg a = (- fst a, \<not> snd a)"

definition s_mul :: "signed \<Rightarrow> signed \<Rightarrow> signed" where
  "s_mul a b = (fst a * fst b, snd a \<noteq> snd b)"

text \<open>The sign bit of a number that is not zero agrees with its value.\<close>

definition sign_ok :: "signed \<Rightarrow> bool" where
  "sign_ok a \<longleftrightarrow> (fst a \<noteq> 0 \<longrightarrow> snd a = (fst a < 0))"

text \<open>
  \<^verbatim>\<open>Math.atan2(y, x)\<close>, the angle of the point \<open>(x, y)\<close> in \<open>[-\<pi>, \<pi>]\<close>: at \<open>y = \<plusminus>0\<close> it is
  \<open>\<plusminus>\<pi>\<close> when \<open>x\<close> is negative or \<open>-0\<close>, and \<open>\<plusminus>0\<close> otherwise.
\<close>

definition atan2 :: "signed \<Rightarrow> signed \<Rightarrow> real" where
  "atan2 y x =
     (if fst y = 0 then (if snd x then (if snd y then - pi else pi) else 0)
      else if 0 < fst x then arctan (fst y / fst x)
      else if fst x < 0 then
        (if 0 < fst y then arctan (fst y / fst x) + pi else arctan (fst y / fst x) - pi)
      else if 0 < fst y then pi / 2
      else - (pi / 2))"

section \<open>Configuration (types.ts)\<close>

record SpiroConfig =
  outerRadius :: real
  innerRadius :: real
  penOffset :: real
  penColor :: string
  speed :: real
  opacity :: real
  lineWidth :: real
  showGears :: bool
  statorAspect :: real
  rotorAspect :: real
  numerator :: "real option"
  denominator :: "real option"

text \<open>
  The configuration the specification's data model describes: strictly positive radii and
  aspects, a pen offset that is not negative.
\<close>

definition valid_config :: "SpiroConfig \<Rightarrow> bool" where
  "valid_config cfg \<longleftrightarrow>
     0 < outerRadius cfg \<and> 0 < innerRadius cfg \<and> 0 \<le> penOffset cfg \<and>
     0 < statorAspect cfg \<and> 0 < rotorAspect cfg"

section \<open>Kinematics engine (SpirographRenderer.tsx)\<close>

record Geometry =
  px :: real
  py :: real
  cx :: real
  cy :: real
  phi :: real
  contactX :: real
  contactY :: real

record StepResult = Geometry +
  newU :: real

definition getGeometry ::
    "real \<Rightarrow> real \<Rightarrow> real \<Rightarrow> real \<Rightarrow> real \<Rightarrow> real \<Rightarrow> real \<Rightarrow> Geometry" where
  "getGeometry t u R r d sAspect rAspect =
     (let sx = R * cos t;
          sy = R * sAspect * sin t;
          stx = s_mul (s_neg (plain R)) (plain (sin t));
          sty = s_mul (s_mul (plain R) (plain sAspect)) (plain (cos t));
          alpha = atan2 stx (s_neg sty);
          rtx = s_mul (s_neg (plain r)) (plain (sin u));
          rty = s_mul (s_mul (plain r) (plain rAspect)) (plain (cos u));
          beta = atan2 (s_mul rtx (plain (- 1))) rty;
          ph = alpha - beta + pi;
          rcx = r * cos u;
          rcy = r * rAspect * sin u;
          cosPhi = cos ph;
          sinPhi = sin ph;
          rotRcx = rcx * cosPhi - rcy * sinPhi;
          rotRcy = rcx * sinPhi + rcy * cosPhi;
          ccx = sx - rotRcx;
          ccy = sy - rotRcy;
          ppx = ccx + d * cosPhi;
          ppy = ccy + d * sinPhi
      in \<lparr>px = ppx, py = ppy, cx = ccx, cy = ccy, phi = ph, contactX = sx, contactY = sy\<rparr>)"

definition calculateExactStep :: "real \<Rightarrow> real \<Rightarrow> real \<Rightarrow> real \<Rightarrow> StepResult" where
  "calculateExactStep t R r d =
     (let ccx = (R - r) * cos t;
          ccy = (R - r) * sin t;
          ph = t * (1 - R / r);
          ppx = ccx + d * cos ph;
          ppy = ccy + d * sin ph;
          ctX = R * cos t;
          ctY = R * sin t
      in \<lparr>px = ppx, py = ppy, cx = ccx, cy = ccy, phi = ph, contactX = ctX, contactY = ctY,
          newU = 0\<rparr>)"

definition getEllipseMetric :: "real \<Rightarrow> real \<Rightarrow> real \<Rightarrow> real" where
  "getEllipseMetric angle radius aspect =
     (let sn = sin angle;
          cs = cos angle;
          dx = - radius * sn;
          dy = radius * aspect * cs
      in sqrt (dx * dx + dy * dy))"

definition getDerivative :: "real \<Rightarrow> real \<Rightarrow> real \<Rightarrow> real \<Rightarrow> real \<Rightarrow> real \<Rightarrow> real" where
  "getDerivative t u R sAspect r rAspect =
     (let statorSpeed = getEllipseMetric t R sAspect;
          rotorSpeed = getEllipseMetric u r rAspect
      in statorSpeed / js_or rotorSpeed 0.0001)"

definition calculatePhysicsStep ::
    "real \<Rightarrow> real \<Rightarrow> real \<Rightarrow> real \<Rightarrow> real \<Rightarrow> real \<Rightarrow> real \<Rightarrow> real \<Rightarrow> StepResult" where
  "calculatePhysicsStep t dt currentU R r d sAspect rAspect =
     (let k1 = getDerivative t currentU R sAspect r rAspect;
          k2 = getDerivative (t + dt / 2) (currentU + (dt * k1) / 2) R sAspect r rAspect;
          k3 = getDerivative (t + dt / 2) (currentU + (dt * k2) / 2) R sAspect r rAspect;
          k4 = getDerivative (t + dt) (currentU + dt * k3) R sAspect r rAspect;
          nU = currentU + (dt / 6) * (k1 + 2 * k2 + 2 * k3 + k4);
          geom = getGeometry (t + dt) nU R r d sAspect rAspect
      in Geometry.extend geom \<lparr>newU = nU\<rparr>)"

section \<open>Simulation state and the trace\<close>

record SimState =
  angleRef :: real
  rotorParamRef :: real
  rotorRotationRef :: real
  pointsRef :: "(real \<times> real) list"

text \<open>The values the four refs are created with.\<close>

definition initialState :: SimState where
  "initialState = \<lparr>angleRef = 0, rotorParamRef = 0, rotorRotationRef = 0, pointsRef = []\<rparr>"

text \<open>The body of the clear effect: the four assignments, made in one synchronous block.\<close>

definition clear :: "SimState \<Rightarrow> SimState" where
  "clear s = s\<lparr>pointsRef := [], angleRef := 0, rotorParamRef := 0, rotorRotationRef := 0\<rparr>"

definition handleClear :: "bool \<Rightarrow> SimState \<Rightarrow> SimState" where
  "handleClear shouldClear s = (if shouldClear then clear s else s)"

text \<open>The mode test of \<^verbatim>\<open>animate\<close>; \<^verbatim>\<open>??\<close> leaves a number as it is.\<close>

definition isCircular :: "SpiroConfig \<Rightarrow> bool" where
  "isCircular cfg \<longleftrightarrow>
     \<bar>statorAspect cfg - 1.0\<bar> < 0.005 \<and> \<bar>rotorAspect cfg - 1.0\<bar> < 0.005"

definition dt :: real where
  "dt = 0.002"

text \<open>One iteration of the stepping loop of \<^verbatim>\<open>animate\<close>.\<close>

definition subStep :: "SpiroConfig \<Rightarrow> SimState \<Rightarrow> SimState" where
  "subStep cfg s =
     (let R = outerRadius cfg; r = innerRadius cfg; d = penOffset cfg;
          sAspect = statorAspect cfg; rAspect = rotorAspect cfg
      in if isCircular cfg then
           (let s1 = s\<lparr>angleRef := angleRef s + dt\<rparr>;
                st = calculateExactStep (angleRef s1) R r d
            in s1\<lparr>pointsRef := pointsRef s1 @ [(px st, py st)]\<rparr>)
         else
           (let st = calculatePhysicsStep (angleRef s) dt (rotorParamRef s) R r d sAspect rAspect
            in s\<lparr>angleRef := angleRef s + dt,
                 rotorParamRef := newU st,
                 rotorRotationRef := phi st,
                 pointsRef := pointsRef s @ [(px st, py st)]\<rparr>))"

text \<open>The loop \<^verbatim>\<open>for (let i = 0; i < steps; i++)\<close>.\<close>

fun stepLoop :: "SpiroConfig \<Rightarrow> nat \<Rightarrow> SimState \<Rightarrow> SimState" where
  "stepLoop cfg 0 s = s"
| "stepLoop cfg (Suc n) s = stepLoop cfg n (subStep cfg s)"

text \<open>
  The simulation part of one animation frame: nothing when paused, otherwise
  \<open>\<lceil>speed * 5\<rceil>\<close> sub-steps (none when that number is not positive) and, in circular
  mode, the rotation ref brought up to date after the loop. A frame that returns early (no
  canvas, or a container of size zero) does not reach this part and leaves the state as a
  paused frame does.
\<close>

definition simulateFrame :: "SpiroConfig \<Rightarrow> bool \<Rightarrow> SimState \<Rightarrow> SimState" where
  "simulateFrame cfg isPlaying s =
     (if isPlaying then
        (let steps = \<lceil>speed cfg * 5\<rceil>;
             s' = stepLoop cfg (nat steps) s
         in if isCircular cfg then
              s'\<lparr>rotorRotationRef :=
                   phi (calculateExactStep (angleRef s') (outerRadius cfg) (innerRadius cfg)
                          (penOffset cfg))\<rparr>
            else s')
      else s)"

text \<open>
  The states the component can be in: it starts from the initial refs, and the clear effect
  and the animation frames are the only code that writes them. The parent passes the play
  flag and a configuration, which the core takes to be validated.
\<close>

inductive reachable :: "SimState \<Rightarrow> bool" where
  reach_init: "reachable initialState"
| reach_clear: "reachable s \<Longrightarrow> reachable (handleClear b s)"
| reach_frame: "reachable s \<Longrightarrow> valid_config cfg \<Longrightarrow> reachable (simulateFrame cfg playing s)"

section \<open>Ratio shown in the annotated export\<close>

definition calculateEllipseCircumference :: "real \<Rightarrow> real \<Rightarrow> real" where
  "calculateEllipseCircumference radius aspect =
     (let a = radius;
          b = radius * aspect
      in if aspect = 1 then 2 * pi * radius
         else (let h = (a - b)\<^sup>2 / (a + b)\<^sup>2
               in pi * (a + b) * (1 + (3 * h) / (10 + sqrt (4 - 3 * h)))))"

text \<open>\<^verbatim>\<open>Number.MAX_VALUE\<close>, the largest finite double.\<close>

definition MAX_VALUE :: real where
  "MAX_VALUE = (2 ^ 53 - 1) * 2 ^ 971"

record Best =
  bestN :: int
  bestD :: nat
  minError :: real

text \<open>
  The body of the search loop for one denominator. \<^verbatim>\<open>Math.round\<close> rounds to the nearest
  integer, a half upwards, as \<^const>\<open>round\<close> does.
\<close>

definition searchStep :: "real \<Rightarrow> nat \<Rightarrow> Best \<Rightarrow> Best" where
  "searchStep val d b =
     (let n = round (val * real d);
          error = \<bar>val - real_of_int n / real d\<bar>
      in if error < minError b then \<lparr>bestN = n, bestD = d, minError = error\<rparr> else b)"

text \<open>The loop \<^verbatim>\<open>for (let d = 1; d <= 1000; d++)\<close> from its initial variables.\<close>

definition searchRatio :: "real \<Rightarrow> Best" where
  "searchRatio val =
     fold (searchStep val) [1 ..< 1001] \<lparr>bestN = 0, bestD = 1, minError = MAX_VALUE\<rparr>"

text \<open>The quotient of circumferences the search approximates.\<close>

definition ratioValue :: "SpiroConfig \<Rightarrow> real" where
  "ratioValue cfg =
     (let outerC = calculateEllipseCircumference (outerRadius cfg) (statorAspect cfg);
          innerC = calculateEllipseCircumference (innerRadius cfg) (rotorAspect cfg)
      in innerC / outerC)"

definition searchedRatio :: "SpiroConfig \<Rightarrow> real \<times> real" where
  "searchedRatio cfg =
     (let b = searchRatio (ratioValue cfg) in (real_of_int (bestN b), real (bestD b)))"

text \<open>
  The two numbers printed around the slash of \<^verbatim>\<open>ratioText\<close>. The test
  \<^verbatim>\<open>config.numerator && config.denominator\<close> holds when both fields are set and neither is
  zero.
\<close>

definition ratioText :: "SpiroConfig \<Rightarrow> real \<times> real" where
  "ratioText cfg =
     (case numerator cfg of
        None \<Rightarrow> searchedRatio cfg
      | Some n \<Rightarrow>
          (case denominator cfg of
             None \<Rightarrow> searchedRatio cfg
           | Some d \<Rightarrow> if n \<noteq> 0 \<and> d \<noteq> 0 then (n, d) else searchedRatio cfg))"

text \<open>The error the loop computes for the denominator \<open>d\<close>.\<close>

definition errorAt :: "real \<Rightarrow> nat \<Rightarrow> real" where
  "errorAt val d = \<bar>val - real_of_int (round (val * real d)) / real d\<bar>"

section \<open>View transform\<close>

text \<open>
  The transform \<^verbatim>\<open>{x, y, k}\<close>, the rectangle of the container and the fields a wheel event
  is read for (\<^verbatim>\<open>clientX\<close>, \<^verbatim>\<open>clientY\<close>, \<^verbatim>\<open>deltaY\<close>); the field names carry a prefix
  so that \<open>x\<close>, \<open>y\<close> and \<open>k\<close> stay free for variables.
\<close>

record ViewTransform =
  tr_x :: real
  tr_y :: real
  tr_k :: real

record Rect =
  rect_left :: real
  rect_top :: real
  rect_width :: real
  rect_height :: real

record WheelEvent =
  wheelX :: real
  wheelY :: real
  deltaY :: real

text \<open>The bounds both zoom gestures clamp the scale to.\<close>

definition kMin :: real where
  "kMin = 0.1"

definition kMax :: real where
  "kMax = 20"

text \<open>
  The drawing transform of \<^verbatim>\<open>animate\<close>, in CSS pixels: a world point is drawn at the centre
  of the container plus the offset plus \<open>k\<close> times the point. \<open>worldAt\<close> is its inverse, the
  world coordinate under a screen point, as the zoom handlers compute it.
\<close>

definition screenAt :: "real \<Rightarrow> real \<Rightarrow> ViewTransform \<Rightarrow> real \<times> real \<Rightarrow> real \<times> real" where
  "screenAt W H tr w =
     ((W / 2 + tr_x tr) + tr_k tr * fst w, (H / 2 + tr_y tr) + tr_k tr * snd w)"

definition worldAt :: "real \<Rightarrow> real \<Rightarrow> ViewTransform \<Rightarrow> real \<times> real \<Rightarrow> real \<times> real" where
  "worldAt W H tr p =
     ((fst p - (W / 2 + tr_x tr)) / tr_k tr, (snd p - (H / 2 + tr_y tr)) / tr_k tr)"

text \<open>The state update \<^verbatim>\<open>handleWheel\<close> passes to \<^verbatim>\<open>onTransformChange\<close>.\<close>

definition wheelUpdate ::
    "real \<Rightarrow> real \<Rightarrow> real \<Rightarrow> real \<Rightarrow> real \<Rightarrow> ViewTransform \<Rightarrow> ViewTransform" where
  "wheelUpdate mouseX mouseY W H scaleFactor prev =
     (let newK = max 0.1 (min 20 (tr_k prev * scaleFactor));
          worldX = (mouseX - (W / 2 + tr_x prev)) / tr_k prev;
          worldY = (mouseY - (H / 2 + tr_y prev)) / tr_k prev;
          newX = mouseX - W / 2 - worldX * newK;
          newY = mouseY - H / 2 - worldY * newK
      in \<lparr>tr_x = newX, tr_y = newY, tr_k = newK\<rparr>)"

definition handleWheel :: "Rect option \<Rightarrow> WheelEvent \<Rightarrow> ViewTransform \<Rightarrow> ViewTransform" where
  "handleWheel container e prev =
     (case container of
        None \<Rightarrow> prev
      | Some rect \<Rightarrow>
          (let mouseX = wheelX e - rect_left rect;
               mouseY = wheelY e - rect_top rect;
               sensitivity = 0.001;
               delta = - deltaY e;
               scaleFactor = exp (delta * sensitivity)
           in wheelUpdate mouseX mouseY (rect_width rect) (rect_height rect) scaleFactor prev))"

subsection \<open>Pointer gestures (the renderer with pinch support)\<close>

record PointerEvent =
  pointerId :: nat
  clientX :: real
  clientY :: real

text \<open>
  \<^verbatim>\<open>pointersRef\<close> is a \<^verbatim>\<open>Map\<close>, which keeps insertion order: an association list with
  \<^verbatim>\<open>set\<close> replacing in place or appending.
\<close>

record Gesture =
  pointersRef :: "(nat \<times> (real \<times> real)) list"
  prevPinchDistRef :: "real option"

fun setPointer ::
    "nat \<Rightarrow> real \<times> real \<Rightarrow> (nat \<times> (real \<times> real)) list \<Rightarrow> (nat \<times> (real \<times> real)) list" where
  "setPointer i v [] = [(i, v)]"
| "setPointer i v (p # ps) = (if fst p = i then (i, v) # ps else p # setPointer i v ps)"

definition handlePointerDown :: "PointerEvent \<Rightarrow> Gesture \<Rightarrow> Gesture" where
  "handlePointerDown e g =
     g\<lparr>pointersRef := setPointer (pointerId e) (clientX e, clientY e) (pointersRef g),
       prevPinchDistRef := None\<rparr>"

definition handlePointerUp :: "PointerEvent \<Rightarrow> Gesture \<Rightarrow> Gesture" where
  "handlePointerUp e g =
     g\<lparr>pointersRef := filter (\<lambda>p. fst p \<noteq> pointerId e) (pointersRef g),
       prevPinchDistRef := None\<rparr>"

text \<open>The state update the pinch branch passes to \<^verbatim>\<open>onTransformChange\<close>.\<close>

definition pinchUpdate ::
    "Rect option \<Rightarrow> real \<Rightarrow> real \<Rightarrow> real \<Rightarrow> ViewTransform \<Rightarrow> ViewTransform" where
  "pinchUpdate container midX midY scaleFactor prev =
     (let newK = max 0.1 (min 20 (tr_k prev * scaleFactor))
      in case container of
           None \<Rightarrow> prev\<lparr>tr_k := newK\<rparr>
         | Some rect \<Rightarrow>
             (let mouseX = midX - rect_left rect;
                  mouseY = midY - rect_top rect;
                  W = rect_width rect;
                  H = rect_height rect;
                  worldX = (mouseX - (W / 2 + tr_x prev)) / tr_k prev;
                  worldY = (mouseY - (H / 2 + tr_y prev)) / tr_k prev;
                  newX = mouseX - W / 2 - worldX * newK;
                  newY = mouseY - H / 2 - worldY * newK
              in \<lparr>tr_x = newX, tr_y = newY, tr_k = newK\<rparr>))"

text \<open>
  The pinch branch once the other pointer \<open>p2\<close> is found: the transform changes only when a
  previous distance is recorded and the scale factor is more than 0.005 away from 1. It
  returns the new distance with the transform. (A previous distance of zero makes the factor
  infinite or NaN; the theorems take it to be positive.)
\<close>

definition pinchMove ::
    "Rect option \<Rightarrow> real \<times> real \<Rightarrow> real \<times> real \<Rightarrow> real option \<Rightarrow> ViewTransform \<Rightarrow>
       real \<times> ViewTransform" where
  "pinchMove container p1 p2 prevDist tr =
     (let dist = sqrt ((fst p2 - fst p1)\<^sup>2 + (snd p2 - snd p1)\<^sup>2)
      in (dist,
          (case prevDist of
             None \<Rightarrow> tr
           | Some pd \<Rightarrow>
               (let scaleFactor = dist / pd;
                    midX = (fst p1 + fst p2) / 2;
                    midY = (snd p1 + snd p2) / 2
                in if \<bar>scaleFactor - 1\<bar> > 0.005
                   then pinchUpdate container midX midY scaleFactor tr
                   else tr))))"

definition handlePointerMove ::
    "Rect option \<Rightarrow> PointerEvent \<Rightarrow> Gesture \<times> ViewTransform \<Rightarrow> Gesture \<times> ViewTransform" where
  "handlePointerMove container e gt =
     (let g = fst gt; tr = snd gt; pointers = pointersRef g
      in case map_of pointers (pointerId e) of
           None \<Rightarrow> gt
         | Some prev \<Rightarrow>
             if length pointers = 1 then
               (let dx = clientX e - fst prev;
                    dy = clientY e - snd prev
                in (g\<lparr>pointersRef := setPointer (pointerId e) (clientX e, clientY e) pointers\<rparr>,
                    tr\<lparr>tr_x := tr_x tr + dx, tr_y := tr_y tr + dy\<rparr>))
             else if length pointers = 2 then
               (case find (\<lambda>p. fst p \<noteq> pointerId e) pointers of
                  None \<Rightarrow> gt
                | Some otherPoint \<Rightarrow>
                    (let res = pinchMove container (clientX e, clientY e) (snd otherPoint)
                                 (prevPinchDistRef g) tr
                     in (g\<lparr>prevPinchDistRef := Some (fst res),
                           pointersRef :=
                             setPointer (pointerId e) (clientX e, clientY e) pointers\<rparr>,
                         snd res)))
             else gt)"

subsection \<open>View buttons of the application shell\<close>

definition calculateOptimalScale :: "SpiroConfig \<Rightarrow> real \<Rightarrow> real \<Rightarrow> real" where
  "calculateOptimalScale cfg width height =
     (let R = outerRadius cfg; r = innerRadius cfg; d = penOffset cfg;
          sAspect = js_or (statorAspect cfg) 1;
          rAspect = js_or (rotorAspect cfg) 1;
          maxR = R * max 1 sAspect;
          maxr = r * max 1 rAspect;
          centerDist = \<bar>R - r\<bar>;
          traceExtent = centerDist + d;
          gearExtent = (if showGears cfg then centerDist + maxr else 0);
          statorExtent = maxR;
          maxExtent = max traceExtent (max gearExtent statorExtent);
          minDim = min width height
      in max 0.1 (min 5 ((minDim / 2 * 0.9) / js_or maxExtent 1)))"

text \<open>The inline handlers of the three view buttons.\<close>

definition zoomInClick :: "ViewTransform \<Rightarrow> ViewTransform" where
  "zoomInClick prev = prev\<lparr>tr_k := tr_k prev * 1.2\<rparr>"

definition zoomOutClick :: "ViewTransform \<Rightarrow> ViewTransform" where
  "zoomOutClick prev = prev\<lparr>tr_k := tr_k prev / 1.2\<rparr>"

definition resetViewClick :: "SpiroConfig \<Rightarrow> real \<Rightarrow> real \<Rightarrow> ViewTransform" where
  "resetViewClick cfg innerWidth innerHeight =
     \<lparr>tr_x = 0, tr_y = 0, tr_k = calculateOptimalScale cfg innerWidth innerHeight\<rparr>"

text \<open>The same two buttons in the longer version of the shell, which clamps.\<close>

definition handleZoomIn :: "ViewTransform \<Rightarrow> ViewTransform" where
  "handleZoomIn prev = prev\<lparr>tr_k := min 20 (tr_k prev * 1.2)\<rparr>"

definition handleZoomOut :: "ViewTransform \<Rightarrow> ViewTransform" where
  "handleZoomOut prev = prev\<lparr>tr_k := max 0.1 (tr_k prev / 1.2)\<rparr>"

text \<open>The value \<^verbatim>\<open>useState\<close> creates the transform with.\<close>

definition initialTransform :: ViewTransform where
  "initialTransform = \<lparr>tr_x = 0, tr_y = 0, tr_k = 1\<rparr>"

text \<open>
  The operations on the view: a wheel event, a pinch move (the moved pointer, the other
  pointer and the recorded previous distance), the two zoom buttons and the reset button.
\<close>

datatype ViewOp =
    WheelZoom "Rect option" WheelEvent
  | PinchZoom "Rect option" "real \<times> real" "real \<times> real" real
  | ZoomInButton
  | ZoomOutButton
  | ResetView SpiroConfig real real

fun applyViewOp :: "ViewOp \<Rightarrow> ViewTransform \<Rightarrow> ViewTransform" where
  "applyViewOp (WheelZoom container e) tr = handleWheel container e tr"
| "applyViewOp (PinchZoom container p1 p2 pd) tr = snd (pinchMove container p1 p2 (Some pd) tr)"
| "applyViewOp ZoomInButton tr = zoomInClick tr"
| "applyViewOp ZoomOutButton tr = zoomOutClick tr"
| "applyViewOp (ResetView cfg w h) tr = resetViewClick cfg w h"

definition applyViewOps :: "ViewOp list \<Rightarrow> ViewTransform \<Rightarrow> ViewTransform" where
  "applyViewOps ops tr = fold applyViewOp ops tr"

section \<open>The formulas of the specification\<close>

text \<open>
  The kinematics as the specification words it, to be compared with the code above.
  Exact mode: the closed-form hypotrochoid.
\<close>

definition spec_center :: "real \<Rightarrow> real \<Rightarrow> real \<Rightarrow> real \<times> real" where
  "spec_center R r t = ((R - r) * cos t, (R - r) * sin t)"

definition spec_rotation :: "real \<Rightarrow> real \<Rightarrow> real \<Rightarrow> real" where
  "spec_rotation R r t = t * (1 - R / r)"

definition spec_pen :: "real \<Rightarrow> real \<Rightarrow> real \<Rightarrow> real \<Rightarrow> real \<times> real" where
  "spec_pen R r d t =
     (fst (spec_center R r t) + d * cos (spec_rotation R r t),
      snd (spec_center R r t) + d * sin (spec_rotation R r t))"

definition spec_contact :: "real \<Rightarrow> real \<Rightarrow> real \<times> real" where
  "spec_contact R t = (R * cos t, R * sin t)"

text \<open>
  Numeric mode: a point of an ellipse and its parametric tangent vector, the speed as the
  length of that vector, the rolling constraint as a quotient of speeds, and one step of the
  classical Runge-Kutta scheme for a derivative \<open>f\<close>.
\<close>

definition ellipse_point :: "real \<Rightarrow> real \<Rightarrow> real \<Rightarrow> real \<times> real" where
  "ellipse_point radius aspect a = (radius * cos a, radius * aspect * sin a)"

definition ellipse_tangent :: "real \<Rightarrow> real \<Rightarrow> real \<Rightarrow> real \<times> real" where
  "ellipse_tangent radius aspect a = (- radius * sin a, radius * aspect * cos a)"

definition spec_speed :: "real \<Rightarrow> real \<Rightarrow> real \<Rightarrow> real" where
  "spec_speed radius aspect a =
     sqrt ((fst (ellipse_tangent radius aspect a))\<^sup>2 + (snd (ellipse_tangent radius aspect a))\<^sup>2)"

definition spec_dudt :: "real \<Rightarrow> real \<Rightarrow> real \<Rightarrow> real \<Rightarrow> real \<Rightarrow> real \<Rightarrow> real" where
  "spec_dudt R sAspect r rAspect t u = spec_speed R sAspect t / spec_speed r rAspect u"

definition rk4_stages :: "(real \<Rightarrow> real \<Rightarrow> real) \<Rightarrow> real \<Rightarrow> real \<Rightarrow> real \<Rightarrow> real \<times> real \<times> real \<times> real" where
  "rk4_stages f t u h =
     (let k1 = f t u;
          k2 = f (t + h / 2) (u + h * k1 / 2);
          k3 = f (t + h / 2) (u + h * k2 / 2);
          k4 = f (t + h) (u + h * k3)
      in (k1, k2, k3, k4))"

definition rk4_step :: "(real \<Rightarrow> real \<Rightarrow> real) \<Rightarrow> real \<Rightarrow> real \<Rightarrow> real \<Rightarrow> real" where
  "rk4_step f t u h =
     (case rk4_stages f t u h of
        (k1, k2, k3, k4) \<Rightarrow> u + (h / 6) * (k1 + 2 * k2 + 2 * k3 + k4))"

text \<open>
  The tangent vector as the code computes it, each component with its sign bit, the two
  orientations the code reads off it, and a vector turned by an angle.
\<close>

definition signed_tangent :: "real \<Rightarrow> real \<Rightarrow> real \<Rightarrow> signed \<times> signed" where
  "signed_tangent radius aspect a =
     (s_mul (s_neg (plain radius)) (plain (sin a)),
      s_mul (s_mul (plain radius) (plain aspect)) (plain (cos a)))"

definition stator_alpha :: "real \<Rightarrow> real \<Rightarrow> real \<Rightarrow> real" where
  "stator_alpha R sAspect t =
     atan2 (fst (signed_tangent R sAspect t)) (s_neg (snd (signed_tangent R sAspect t)))"

definition rotor_beta :: "real \<Rightarrow> real \<Rightarrow> real \<Rightarrow> real" where
  "rotor_beta r rAspect u =
     atan2 (s_mul (fst (signed_tangent r rAspect u)) (plain (- 1))) (snd (signed_tangent r rAspect u))"

definition rotate_by :: "real \<Rightarrow> real \<times> real \<Rightarrow> real \<times> real" where
  "rotate_by a v = (fst v * cos a - snd v * sin a, fst v * sin a + snd v * cos a)"

definition spec_numeric_phi :: "real \<Rightarrow> real \<Rightarrow> real \<Rightarrow> real \<Rightarrow> real \<Rightarrow> real \<Rightarrow> real" where
  "spec_numeric_phi R sAspect r rAspect t u = stator_alpha R sAspect t - rotor_beta r rAspect u + pi"

definition spec_numeric_center ::
    "real \<Rightarrow> real \<Rightarrow> real \<Rightarrow> real \<Rightarrow> real \<Rightarrow> real \<Rightarrow> real \<times> real" where
  "spec_numeric_center R sAspect r rAspect t u =
     (let c = ellipse_point R sAspect t;
          v = rotate_by (spec_numeric_phi R sAspect r rAspect t u) (ellipse_point r rAspect u)
      in (fst c - fst v, snd c - snd v))"

definition spec_numeric_pen ::
    "real \<Rightarrow> real \<Rightarrow> real \<Rightarrow> real \<Rightarrow> real \<Rightarrow> real \<Rightarrow> real \<Rightarrow> real \<times> real" where
  "spec_numeric_pen R sAspect r rAspect d t u =
     (let c = spec_numeric_center R sAspect r rAspect t u;
          a = spec_numeric_phi R sAspect r rAspect t u
      in (fst c + d * cos a, snd c + d * sin a))"

section \<open>Configurations used as examples\<close>

text \<open>\<^verbatim>\<open>DEFAULT_CONFIG\<close> of the constants module, and an elliptical variant without a hint.\<close>

definition DEFAULT_CONFIG :: SpiroConfig where
  "DEFAULT_CONFIG =
     \<lparr>outerRadius = 150, innerRadius = 52, penOffset = 70, penColor = ''#22c55e'',
      speed = 1, opacity = 1, lineWidth = 1.5, showGears = True, statorAspect = 1.0,
      rotorAspect = 1.0, numerator = Some 2, denominator = Some 3\<rparr>"

definition ellipticConfig :: SpiroConfig where
  "ellipticConfig =
     DEFAULT_CONFIG\<lparr>statorAspect := 0.6, rotorAspect := 1.5, numerator := None,
       denominator := None\<rparr>"

text \<open>A rotor flattened to a segment: its speed is zero at \<open>u = 0\<close>.\<close>

definition zeroAspectConfig :: SpiroConfig where
  "zeroAspectConfig = ellipticConfig\<lparr>rotorAspect := 0\<rparr>"

text \<open>The default configuration with its hint cleared.\<close>

definition unhintedConfig :: SpiroConfig where
  "unhintedConfig = DEFAULT_CONFIG\<lparr>numerator := None, denominator := None\<rparr>"

text \<open>A container of 800 by 600 pixels at the origin of the page.\<close>

definition viewport :: Rect where
  "viewport = \<lparr>rect_left = 0, rect_top = 0, rect_width = 800, rect_height = 600\<rparr>"

text \<open>
  Two fingers down, 1000 pixels apart, after a first pinch move has recorded that
  distance.
\<close>

definition twoFingers :: Gesture where
  "twoFingers = \<lparr>pointersRef = [(1, (0, 0)), (2, (1000, 0))], prevPinchDistRef = Some 1000\<rparr>"

section \<open>Invariant of the simulation state\<close>

text \<open>While the trace is empty, the three simulation variables are still zero.\<close>

definition rest_inv :: "SimState \<Rightarrow> bool" where
  "rest_inv s \<longleftrightarrow>
     (pointsRef s = [] \<longrightarrow> angleRef s = 0 \<and> rotorParamRef s = 0 \<and> rotorRotationRef s = 0)"

section \<open>Clearing\<close>

lemma stepLoop_points_nonempty:
  "pointsRef s \<noteq> [] \<Longrightarrow> pointsRef (stepLoop cfg n s) \<noteq> []"
  by (induction n arbitrary: s) (simp_all add: subStep_def Let_def)

lemma stepLoop_pos_points:
  "0 < n \<Longrightarrow> pointsRef (stepLoop cfg n s) \<noteq> []"
  by (cases n) (simp_all add: stepLoop_points_nonempty subStep_def Let_def)

lemma frame_inv: "rest_inv s \<Longrightarrow> rest_inv (simulateFrame cfg playing s)"
proof (cases "playing \<and> 0 < nat \<lceil>speed cfg * 5\<rceil>")
  case True
  then have "pointsRef (stepLoop cfg (nat \<lceil>speed cfg * 5\<rceil>) s) \<noteq> []"
    by (simp add: stepLoop_pos_points)
  with True show ?thesis
    by (simp add: simulateFrame_def rest_inv_def Let_def)
next
  case False
  assume "rest_inv s"
  with False show ?thesis
    by (auto simp add: simulateFrame_def rest_inv_def Let_def calculateExactStep_def)
qed

lemma reachable_inv: "reachable s \<Longrightarrow> rest_inv s"
proof (induction rule: reachable.induct)
  case reach_init
  show ?case by (simp add: rest_inv_def initialState_def)
next
  case (reach_clear s b)
  then show ?case by (simp add: rest_inv_def handleClear_def clear_def)
next
  case (reach_frame s cfg playing)
  from reach_frame.IH show ?case by (rule frame_inv)
qed

text \<open>
  C5. Clearing empties the trace and sets the simulation state to \<open>(t, u, \<phi>) = (0, 0, 0)\<close>
  in one state transition; clearing twice is clearing once; and in every state the component
  can reach, clearing an empty trace changes nothing, because the state is then already
  \<open>(0, 0, 0)\<close>.
\<close>

theorem clear_resets_and_is_idempotent:
  "pointsRef (clear s) = [] \<and> angleRef (clear s) = 0 \<and> rotorParamRef (clear s) = 0
   \<and> rotorRotationRef (clear s) = 0
   \<and> clear (clear s) = clear s
   \<and> (reachable s \<longrightarrow> pointsRef s = [] \<longrightarrow> clear s = s)"
proof -
  have "clear s = s" if "reachable s" "pointsRef s = []"
  proof -
    from that have "angleRef s = 0 \<and> rotorParamRef s = 0 \<and> rotorRotationRef s = 0"
      using reachable_inv [of s] by (simp add: rest_inv_def)
    with that show ?thesis by (simp add: clear_def)
  qed
  then show ?thesis by (auto simp add: clear_def)
qed

theorem clear_resets_and_is_idempotent_witness:
  "reachable initialState \<and> pointsRef initialState = [] \<and> clear initialState = initialState"
  using clear_resets_and_is_idempotent [of initialState] reach_init
  by (simp add: initialState_def)

section \<open>The derivative of the rolling constraint\<close>

lemma metric_nonneg: "0 \<le> getEllipseMetric a radius aspect"
  by (simp add: getEllipseMetric_def Let_def)

lemma metric_pos:
  assumes "0 < radius" "0 < aspect"
  shows "0 < getEllipseMetric a radius aspect"
proof -
  have "0 < (radius * sin a)\<^sup>2 + (radius * aspect * cos a)\<^sup>2"
  proof (cases "cos a = 0")
    case True
    then have "sin a \<noteq> 0" using sin_cos_squared_add [of a] by auto
    with assms have "0 < (radius * sin a)\<^sup>2" by simp
    moreover have "0 \<le> (radius * aspect * cos a)\<^sup>2" by simp
    ultimately show ?thesis by linarith
  next
    case False
    with assms have "0 < (radius * aspect * cos a)\<^sup>2" by simp
    moreover have "0 \<le> (radius * sin a)\<^sup>2" by simp
    ultimately show ?thesis by linarith
  qed
  then show ?thesis
    by (simp add: getEllipseMetric_def Let_def power2_eq_square)
qed

lemma denominator_pos: "0 < js_or (getEllipseMetric u r rAspect) 0.0001"
  using metric_nonneg [of u r rAspect] by (simp add: js_or_def)

text \<open>
  C7. For every \<open>t\<close>, \<open>u\<close> and every radius and aspect, the divisor of the derivative is not
  zero, so the derivative is the true quotient of the stator speed by that divisor; a rotor
  speed of exactly zero is replaced by 0.0001. The function has no error branch.
\<close>

theorem derivative_denominator_never_zero:
  "js_or (getEllipseMetric u r rAspect) 0.0001 \<noteq> 0
   \<and> getDerivative t u R sAspect r rAspect * js_or (getEllipseMetric u r rAspect) 0.0001
       = getEllipseMetric t R sAspect
   \<and> (getEllipseMetric u r rAspect = 0 \<longrightarrow>
        getDerivative t u R sAspect r rAspect = getEllipseMetric t R sAspect / 0.0001)"
  using denominator_pos [of u r rAspect]
  by (simp add: getDerivative_def Let_def js_or_def)

theorem derivative_denominator_never_zero_witness:
  "getEllipseMetric 0 0 1 = 0 \<and> getDerivative 0 0 1 1 0 1 = 10000"
  using derivative_denominator_never_zero [of 0 0 1 0 1 1]
  by (simp add: getEllipseMetric_def)

lemma derivative_pos:
  assumes "0 < R" "0 < sAspect"
  shows "0 < getDerivative t u R sAspect r rAspect"
  using metric_pos [OF assms, of t] denominator_pos [of u r rAspect]
  by (simp add: getDerivative_def Let_def)

section \<open>One numeric sub-step\<close>

lemma physics_newU:
  "newU (calculatePhysicsStep t h u R r d sA rA) =
     rk4_step (\<lambda>t u. getDerivative t u R sA r rA) t u h"
  by (simp add: calculatePhysicsStep_def rk4_step_def rk4_stages_def Let_def Geometry.extend_def)

lemma rk4_step_increases:
  assumes "\<And>t u. 0 < f t u" "0 < h"
  shows "u < rk4_step f t u h"
proof -
  obtain k1 k2 k3 k4 where st: "rk4_stages f t u h = (k1, k2, k3, k4)"
    by (metis prod_cases4)
  then have "0 < k1" "0 < k2" "0 < k3" "0 < k4"
    using assms(1) by (auto simp add: rk4_stages_def Let_def)
  then have "0 < k1 + 2 * k2 + 2 * k3 + k4" by linarith
  with assms(2) have "0 < (h / 6) * (k1 + 2 * k2 + 2 * k3 + k4)" by simp
  with st show ?thesis by (simp add: rk4_step_def)
qed

lemma subStep_numeric_u:
  "\<not> isCircular cfg \<Longrightarrow>
   rotorParamRef (subStep cfg s) =
     rk4_step (\<lambda>t u. getDerivative t u (outerRadius cfg) (statorAspect cfg)
                        (innerRadius cfg) (rotorAspect cfg))
       (angleRef s) (rotorParamRef s) dt"
  by (simp add: subStep_def Let_def physics_newU)

text \<open>
  C9. In numeric mode, with positive radii and aspects, the derivative is strictly positive
  at every \<open>(t, u)\<close>, hence at the four stages, and a sub-step strictly increases the rotor
  parameter; the same holds for the step function with any positive step size.
\<close>

theorem numeric_step_increases_u:
  assumes "0 < outerRadius cfg" "0 < innerRadius cfg" "0 < statorAspect cfg"
    "0 < rotorAspect cfg" "\<not> isCircular cfg"
  shows "(\<forall>t u. 0 < getDerivative t u (outerRadius cfg) (statorAspect cfg)
                     (innerRadius cfg) (rotorAspect cfg))
     \<and> rotorParamRef s < rotorParamRef (subStep cfg s)
     \<and> (\<forall>t u h d. 0 < h \<longrightarrow>
          u < newU (calculatePhysicsStep t h u (outerRadius cfg) (innerRadius cfg) d
                      (statorAspect cfg) (rotorAspect cfg)))"
proof -
  have pos: "0 < getDerivative t u (outerRadius cfg) (statorAspect cfg)
                   (innerRadius cfg) (rotorAspect cfg)" for t u
    using assms(1,3) by (rule derivative_pos)
  have "0 < dt" by (simp add: dt_def)
  with pos have "rotorParamRef s < rotorParamRef (subStep cfg s)"
    using assms(5) by (simp add: subStep_numeric_u rk4_step_increases)
  moreover have "u < newU (calculatePhysicsStep t h u (outerRadius cfg) (innerRadius cfg) d
                             (statorAspect cfg) (rotorAspect cfg))"
    if "0 < h" for t u h d
    using pos that by (simp add: physics_newU rk4_step_increases)
  ultimately show ?thesis using pos by blast
qed

theorem numeric_step_increases_u_witness:
  "0 < outerRadius ellipticConfig \<and> 0 < innerRadius ellipticConfig
   \<and> 0 < statorAspect ellipticConfig \<and> 0 < rotorAspect ellipticConfig
   \<and> \<not> isCircular ellipticConfig
   \<and> rotorParamRef initialState < rotorParamRef (subStep ellipticConfig initialState)
   \<and> (0::real) < 0.002
   \<and> 0 < newU (calculatePhysicsStep 0 0.002 0 150 52 70 0.6 1.5)"
  using numeric_step_increases_u [of ellipticConfig initialState]
  by (simp add: ellipticConfig_def DEFAULT_CONFIG_def isCircular_def)

section \<open>One exact sub-step\<close>

lemma exact_step_fields:
  "(cx (calculateExactStep t R r d), cy (calculateExactStep t R r d)) = spec_center R r t
   \<and> phi (calculateExactStep t R r d) = spec_rotation R r t
   \<and> (px (calculateExactStep t R r d), py (calculateExactStep t R r d)) = spec_pen R r d t
   \<and> (contactX (calculateExactStep t R r d), contactY (calculateExactStep t R r d))
       = spec_contact R t
   \<and> newU (calculateExactStep t R r d) = 0"
  by (simp add: calculateExactStep_def spec_center_def spec_rotation_def spec_pen_def
      spec_contact_def Let_def)

lemma subStep_exact:
  "isCircular cfg \<Longrightarrow>
   subStep cfg s =
     s\<lparr>angleRef := angleRef s + dt,
       pointsRef := pointsRef s @
         [spec_pen (outerRadius cfg) (innerRadius cfg) (penOffset cfg) (angleRef s + dt)]\<rparr>"
  using exact_step_fields [of "angleRef s + dt" "outerRadius cfg" "innerRadius cfg" "penOffset cfg"]
  by (simp add: subStep_def Let_def)

text \<open>
  C1. When both aspects are within 0.005 of 1, a sub-step advances \<open>t\<close> by \<open>dt\<close> and appends
  the pen position of the step computed at the new \<open>t\<close>, and that step is the closed-form
  hypotrochoid: centre \<open>((R - r) cos t, (R - r) sin t)\<close>, rotation \<open>\<phi> = t (1 - R / r)\<close>, pen
  at centre \<open>+ d (cos \<phi>, sin \<phi>)\<close>, contact point \<open>(R cos t, R sin t)\<close>.
\<close>

theorem exact_substep_closed_form:
  assumes "\<bar>statorAspect cfg - 1\<bar> < 0.005" "\<bar>rotorAspect cfg - 1\<bar> < 0.005"
  shows "(let R = outerRadius cfg; r = innerRadius cfg; d = penOffset cfg;
              t' = angleRef s + dt;
              st = calculateExactStep t' R r d
          in angleRef (subStep cfg s) = t'
           \<and> pointsRef (subStep cfg s) = pointsRef s @ [(px st, py st)]
           \<and> (cx st, cy st) = ((R - r) * cos t', (R - r) * sin t')
           \<and> phi st = t' * (1 - R / r)
           \<and> (px st, py st) = (cx st + d * cos (phi st), cy st + d * sin (phi st))
           \<and> (contactX st, contactY st) = (R * cos t', R * sin t')
           \<and> (cx st, cy st) = spec_center R r t' \<and> phi st = spec_rotation R r t'
           \<and> (px st, py st) = spec_pen R r d t'
           \<and> (contactX st, contactY st) = spec_contact R t')"
proof -
  from assms have c: "isCircular cfg" by (simp add: isCircular_def)
  show ?thesis
    using exact_step_fields [of "angleRef s + dt" "outerRadius cfg" "innerRadius cfg" "penOffset cfg"]
    by (simp add: subStep_exact [OF c] Let_def)
      (simp add: spec_center_def spec_rotation_def spec_pen_def spec_contact_def)
qed

theorem exact_substep_closed_form_witness:
  "\<bar>statorAspect DEFAULT_CONFIG - 1\<bar> < 0.005 \<and> \<bar>rotorAspect DEFAULT_CONFIG - 1\<bar> < 0.005
   \<and> angleRef (subStep DEFAULT_CONFIG initialState) = 0.002
   \<and> pointsRef (subStep DEFAULT_CONFIG initialState) = [spec_pen 150 52 70 0.002]"
proof -
  have a: "\<bar>statorAspect DEFAULT_CONFIG - 1\<bar> < 0.005" "\<bar>rotorAspect DEFAULT_CONFIG - 1\<bar> < 0.005"
    by (simp_all add: DEFAULT_CONFIG_def)
  note th = exact_substep_closed_form [OF a, of initialState, unfolded Let_def]
  from th have "angleRef (subStep DEFAULT_CONFIG initialState) = angleRef initialState + dt"
    by (elim conjE)
  moreover from th have "pointsRef (subStep DEFAULT_CONFIG initialState) =
      pointsRef initialState @
        [spec_pen (outerRadius DEFAULT_CONFIG) (innerRadius DEFAULT_CONFIG)
           (penOffset DEFAULT_CONFIG) (angleRef initialState + dt)]"
    by (elim conjE) (erule ssubst, erule subst, rule refl)
  ultimately show ?thesis
    using a by (simp add: DEFAULT_CONFIG_def initialState_def dt_def)
qed

section \<open>Runs in exact mode\<close>

lemma stepLoop_exact:
  "isCircular cfg \<Longrightarrow>
   stepLoop cfg n s =
     s\<lparr>angleRef := angleRef s + real n * dt,
       pointsRef := pointsRef s @
         map (\<lambda>i. spec_pen (outerRadius cfg) (innerRadius cfg) (penOffset cfg)
                    (angleRef s + real (Suc i) * dt)) [0 ..< n]\<rparr>"
proof (induction n arbitrary: s)
  case 0
  show ?case by simp
next
  case (Suc n)
  have "map (\<lambda>i. spec_pen (outerRadius cfg) (innerRadius cfg) (penOffset cfg)
                    (angleRef s + real (Suc i) * dt)) [0 ..< Suc n]
      = spec_pen (outerRadius cfg) (innerRadius cfg) (penOffset cfg) (angleRef s + dt)
        # map (\<lambda>i. spec_pen (outerRadius cfg) (innerRadius cfg) (penOffset cfg)
                    (angleRef s + dt + real (Suc i) * dt)) [0 ..< n]"
    by (simp add: upt_conv_Cons map_Suc_upt [symmetric] algebra_simps del: upt_Suc)
  with Suc show ?case
    by (simp add: subStep_exact algebra_simps del: upt_Suc)
qed

lemma subStep_rotorParam_exact:
  "isCircular cfg \<Longrightarrow> rotorParamRef (subStep cfg s) = rotorParamRef s"
  by (simp add: subStep_exact)

text \<open>For the trace and for \<open>t\<close>, a playing frame is its sub-steps and nothing else.\<close>

lemma simulateFrame_trace:
  "pointsRef (simulateFrame cfg True s) = pointsRef (stepLoop cfg (nat \<lceil>speed cfg * 5\<rceil>) s)
   \<and> angleRef (simulateFrame cfg True s) = angleRef (stepLoop cfg (nat \<lceil>speed cfg * 5\<rceil>) s)"
  by (simp add: simulateFrame_def Let_def)

lemma stepLoop_add: "stepLoop cfg (m + n) s = stepLoop cfg n (stepLoop cfg m s)"
  by (induction m arbitrary: s) simp_all

text \<open>
  C10. In circular mode a sub-step leaves the rotor parameter (and the rotation ref) as they
  were, and so do the stepping loop and a whole frame, which writes only \<open>t\<close>, \<open>\<phi>\<close> and the
  trace. After a clear and \<open>n\<close> circular sub-steps \<open>u\<close> is still 0 while \<open>t = n dt\<close>, so the
  first sub-step under a non-circular configuration integrates from \<open>(n dt, 0)\<close>.
\<close>

theorem exact_mode_leaves_u:
  assumes "isCircular cfg"
  shows "rotorParamRef (subStep cfg s) = rotorParamRef s
     \<and> rotorRotationRef (subStep cfg s) = rotorRotationRef s
     \<and> rotorParamRef (stepLoop cfg n s) = rotorParamRef s
     \<and> rotorParamRef (simulateFrame cfg playing s) = rotorParamRef s
     \<and> rotorParamRef (stepLoop cfg n (clear s)) = 0
     \<and> angleRef (stepLoop cfg n (clear s)) = real n * dt
     \<and> (\<not> isCircular cfg' \<longrightarrow>
          rotorParamRef (subStep cfg' (stepLoop cfg n (clear s))) =
            newU (calculatePhysicsStep (real n * dt) dt 0 (outerRadius cfg') (innerRadius cfg')
                    (penOffset cfg') (statorAspect cfg') (rotorAspect cfg')))"
  using assms
  by (simp add: stepLoop_exact subStep_exact simulateFrame_def Let_def clear_def)
     (simp add: subStep_def Let_def)

theorem exact_mode_leaves_u_witness:
  "isCircular DEFAULT_CONFIG \<and> \<not> isCircular ellipticConfig
   \<and> angleRef (stepLoop DEFAULT_CONFIG 1000 (clear initialState)) = 2
   \<and> rotorParamRef (stepLoop DEFAULT_CONFIG 1000 (clear initialState)) = 0
   \<and> rotorParamRef (subStep ellipticConfig (stepLoop DEFAULT_CONFIG 1000 (clear initialState))) =
        newU (calculatePhysicsStep 2 0.002 0 150 52 70 0.6 1.5)"
proof -
  have c: "isCircular DEFAULT_CONFIG" by (simp add: isCircular_def DEFAULT_CONFIG_def)
  have e: "\<not> isCircular ellipticConfig" by (simp add: isCircular_def ellipticConfig_def DEFAULT_CONFIG_def)
  show ?thesis
    using exact_mode_leaves_u [OF c, of initialState 1000 True ellipticConfig] c e
    by (simp add: dt_def ellipticConfig_def DEFAULT_CONFIG_def)
qed

text \<open>
  C3. With both aspects equal to 1, two runs of \<open>N\<close> sub-steps under the same configuration,
  each started by a clear (whatever the state before it), leave the same trace: the \<open>N\<close>
  hypotrochoid points at \<open>t = dt, 2 dt, \<dots>, N dt\<close>.
\<close>

theorem exact_runs_deterministic:
  assumes "statorAspect cfg = 1" "rotorAspect cfg = 1"
  shows "pointsRef (stepLoop cfg N (clear s1)) = pointsRef (stepLoop cfg N (clear s2))
     \<and> pointsRef (stepLoop cfg N (clear s1)) =
         map (\<lambda>i. spec_pen (outerRadius cfg) (innerRadius cfg) (penOffset cfg) (real (Suc i) * dt))
           [0 ..< N]"
proof -
  from assms have c: "isCircular cfg" by (simp add: isCircular_def)
  show ?thesis by (simp add: stepLoop_exact [OF c] clear_def)
qed

theorem exact_runs_deterministic_witness:
  "statorAspect DEFAULT_CONFIG = 1 \<and> rotorAspect DEFAULT_CONFIG = 1
   \<and> pointsRef (stepLoop DEFAULT_CONFIG 2 (clear initialState)) =
       pointsRef (stepLoop DEFAULT_CONFIG 2
         (clear \<lparr>angleRef = 7, rotorParamRef = 3, rotorRotationRef = 1, pointsRef = [(1, 2)]\<rparr>))
   \<and> pointsRef (stepLoop DEFAULT_CONFIG 2 (clear initialState)) =
       [spec_pen 150 52 70 0.002, spec_pen 150 52 70 0.004]"
proof -
  have a: "statorAspect DEFAULT_CONFIG = 1" "rotorAspect DEFAULT_CONFIG = 1"
    by (simp_all add: DEFAULT_CONFIG_def)
  have v: "map (\<lambda>i. spec_pen (outerRadius DEFAULT_CONFIG) (innerRadius DEFAULT_CONFIG)
                (penOffset DEFAULT_CONFIG) (real (Suc i) * dt)) [0 ..< 2]
      = [spec_pen 150 52 70 0.002, spec_pen 150 52 70 0.004]"
    by (simp add: upt_rec numeral_2_eq_2 dt_def DEFAULT_CONFIG_def)
  from exact_runs_deterministic [OF a, of 2 initialState
        "\<lparr>angleRef = 7, rotorParamRef = 3, rotorRotationRef = 1, pointsRef = [(1, 2)]\<rparr>"]
  show ?thesis
    unfolding v using a by (elim conjE) (intro conjI, simp_all)
qed

section \<open>The numeric sub-step against the specification\<close>

lemma metric_is_speed: "getEllipseMetric a radius aspect = spec_speed radius aspect a"
  by (simp add: getEllipseMetric_def spec_speed_def ellipse_tangent_def Let_def power2_eq_square)

lemma derivative_is_quotient:
  assumes "0 < r" "0 < rAspect"
  shows "getDerivative t u R sAspect r rAspect = spec_dudt R sAspect r rAspect t u"
  using metric_pos [OF assms, of u]
  by (simp add: getDerivative_def spec_dudt_def js_or_def Let_def metric_is_speed)

lemma getGeometry_spec:
  "getGeometry t u R r d sA rA =
     \<lparr>px = fst (spec_numeric_pen R sA r rA d t u), py = snd (spec_numeric_pen R sA r rA d t u),
      cx = fst (spec_numeric_center R sA r rA t u), cy = snd (spec_numeric_center R sA r rA t u),
      phi = spec_numeric_phi R sA r rA t u,
      contactX = fst (ellipse_point R sA t), contactY = snd (ellipse_point R sA t)\<rparr>"
  by (simp add: getGeometry_def spec_numeric_pen_def spec_numeric_center_def spec_numeric_phi_def
      stator_alpha_def rotor_beta_def signed_tangent_def ellipse_point_def rotate_by_def
      Let_def)

lemma physics_geometry:
  "Geometry.truncate (calculatePhysicsStep t h u R r d sA rA) =
     getGeometry (t + h) (newU (calculatePhysicsStep t h u R r d sA rA)) R r d sA rA"
  by (simp add: calculatePhysicsStep_def Let_def Geometry.extend_def Geometry.truncate_def)

lemma physics_fields:
  "px (calculatePhysicsStep t h u R r d sA rA) = px (getGeometry (t + h) (newU (calculatePhysicsStep t h u R r d sA rA)) R r d sA rA)"
  "py (calculatePhysicsStep t h u R r d sA rA) = py (getGeometry (t + h) (newU (calculatePhysicsStep t h u R r d sA rA)) R r d sA rA)"
  "phi (calculatePhysicsStep t h u R r d sA rA) = phi (getGeometry (t + h) (newU (calculatePhysicsStep t h u R r d sA rA)) R r d sA rA)"
  "cx (calculatePhysicsStep t h u R r d sA rA) = cx (getGeometry (t + h) (newU (calculatePhysicsStep t h u R r d sA rA)) R r d sA rA)"
  "cy (calculatePhysicsStep t h u R r d sA rA) = cy (getGeometry (t + h) (newU (calculatePhysicsStep t h u R r d sA rA)) R r d sA rA)"
  "contactX (calculatePhysicsStep t h u R r d sA rA) = contactX (getGeometry (t + h) (newU (calculatePhysicsStep t h u R r d sA rA)) R r d sA rA)"
  "contactY (calculatePhysicsStep t h u R r d sA rA) = contactY (getGeometry (t + h) (newU (calculatePhysicsStep t h u R r d sA rA)) R r d sA rA)"
  by (simp_all add: calculatePhysicsStep_def Let_def Geometry.extend_def)

lemma physics_newU_spec:
  assumes "0 < r" "0 < rAspect"
  shows "newU (calculatePhysicsStep t h u R r d sAspect rAspect) =
     rk4_step (spec_dudt R sAspect r rAspect) t u h"
proof -
  have "(\<lambda>t u. getDerivative t u R sAspect r rAspect) = spec_dudt R sAspect r rAspect"
    by (intro ext) (rule derivative_is_quotient [OF assms])
  then show ?thesis by (simp add: physics_newU)
qed

text \<open>Without a condition on the rotor, the derivative is the guarded quotient.\<close>

lemma derivative_guarded:
  "getDerivative t u R sAspect r rAspect =
     spec_speed R sAspect t /
       (if spec_speed r rAspect u = 0 then 0.0001 else spec_speed r rAspect u)"
  by (simp add: getDerivative_def js_or_def Let_def metric_is_speed)

subsection \<open>The angle of a vector\<close>

lemma sign_ok_plain: "sign_ok (plain x)"
  by (simp add: sign_ok_def plain_def)

lemma sign_ok_neg: "sign_ok a \<Longrightarrow> sign_ok (s_neg a)"
  by (auto simp add: sign_ok_def s_neg_def)

lemma sign_ok_mul: "sign_ok a \<Longrightarrow> sign_ok b \<Longrightarrow> sign_ok (s_mul a b)"
  by (auto simp add: sign_ok_def s_mul_def mult_less_0_iff)

lemma polar_pos:
  fixes x y :: real
  assumes "0 < x"
  shows "sqrt (x\<^sup>2 + y\<^sup>2) * cos (arctan (y / x)) = x
       \<and> sqrt (x\<^sup>2 + y\<^sup>2) * sin (arctan (y / x)) = y"
proof -
  have s: "sqrt (x\<^sup>2 + y\<^sup>2) = x * sqrt (1 + (y / x)\<^sup>2)"
  proof -
    have "x\<^sup>2 + y\<^sup>2 = x\<^sup>2 * (1 + (y / x)\<^sup>2)"
      using assms by (simp add: field_simps power2_eq_square)
    then have "sqrt (x\<^sup>2 + y\<^sup>2) = sqrt (x\<^sup>2) * sqrt (1 + (y / x)\<^sup>2)"
      by (simp add: real_sqrt_mult)
    with assms show ?thesis by simp
  qed
  have p: "0 < sqrt (1 + (y / x)\<^sup>2)"
    by (simp add: add_pos_nonneg)
  show ?thesis
    using assms p by (simp add: s cos_arctan sin_arctan)
qed

lemma polar_neg:
  fixes x y :: real
  assumes "x < 0"
  shows "sqrt (x\<^sup>2 + y\<^sup>2) * - cos (arctan (y / x)) = x
       \<and> sqrt (x\<^sup>2 + y\<^sup>2) * - sin (arctan (y / x)) = y"
proof -
  have s: "sqrt (x\<^sup>2 + y\<^sup>2) = - x * sqrt (1 + (y / x)\<^sup>2)"
  proof -
    have "x\<^sup>2 + y\<^sup>2 = x\<^sup>2 * (1 + (y / x)\<^sup>2)"
      using assms by (simp add: field_simps power2_eq_square)
    then have "sqrt (x\<^sup>2 + y\<^sup>2) = sqrt (x\<^sup>2) * sqrt (1 + (y / x)\<^sup>2)"
      by (simp add: real_sqrt_mult)
    with assms show ?thesis by simp
  qed
  have p: "0 < sqrt (1 + (y / x)\<^sup>2)"
    by (simp add: add_pos_nonneg)
  show ?thesis
    using assms p by (simp add: s cos_arctan sin_arctan)
qed

text \<open>
  \<open>atan2 y x\<close> is an angle of the vector \<open>(x, y)\<close>: the vector is its length times
  \<open>(cos, sin)\<close> of the angle, whatever the signs of the zeros.
\<close>

lemma atan2_polar:
  assumes "sign_ok x"
  shows "sqrt ((fst x)\<^sup>2 + (fst y)\<^sup>2) * cos (atan2 y x) = fst x
       \<and> sqrt ((fst x)\<^sup>2 + (fst y)\<^sup>2) * sin (atan2 y x) = fst y"
proof (cases "fst y = 0")
  case True
  with assms show ?thesis
    by (auto simp add: atan2_def sign_ok_def)
next
  case False
  consider "0 < fst x" | "fst x < 0" | "fst x = 0" by linarith
  then show ?thesis
  proof cases
    case 1
    with False polar_pos [OF 1, of "fst y"] show ?thesis by (simp add: atan2_def)
  next
    case 2
    with False polar_neg [OF 2, of "fst y"] show ?thesis by (simp add: atan2_def)
  next
    case 3
    with False show ?thesis by (auto simp add: atan2_def)
  qed
qed

lemma atan2_range: "- pi \<le> atan2 y x \<and> atan2 y x \<le> pi"
proof -
  have a: "- (pi / 2) < arctan (fst y / fst x)" "arctan (fst y / fst x) < pi / 2"
    by (rule arctan_lbound, rule arctan_ubound)
  have n: "fst x < 0 \<Longrightarrow> 0 < fst y \<Longrightarrow> arctan (fst y / fst x) < 0"
    by (simp add: arctan_less_zero_iff divide_pos_neg)
  have p: "fst x < 0 \<Longrightarrow> fst y < 0 \<Longrightarrow> 0 < arctan (fst y / fst x)"
    by (simp add: zero_less_arctan_iff divide_neg_neg)
  show ?thesis
    using a n p pi_gt_zero by (auto simp add: atan2_def)
qed

lemma signed_tangent_value:
  "fst (fst (signed_tangent radius aspect a)) = fst (ellipse_tangent radius aspect a)
   \<and> fst (snd (signed_tangent radius aspect a)) = snd (ellipse_tangent radius aspect a)
   \<and> sign_ok (fst (signed_tangent radius aspect a))
   \<and> sign_ok (snd (signed_tangent radius aspect a))"
  by (simp add: signed_tangent_def ellipse_tangent_def sign_ok_mul sign_ok_neg sign_ok_plain)
     (simp add: s_mul_def s_neg_def plain_def)

text \<open>
  \<open>\<alpha>\<close> is the direction of the stator's tangent turned a quarter turn to the left, \<open>\<beta>\<close> that
  of the rotor's tangent turned a quarter turn to the right.
\<close>

lemma stator_alpha_polar:
  "spec_speed R sA t * cos (stator_alpha R sA t) = - snd (ellipse_tangent R sA t)
   \<and> spec_speed R sA t * sin (stator_alpha R sA t) = fst (ellipse_tangent R sA t)"
proof -
  let ?T = "signed_tangent R sA t"
  have ok: "sign_ok (s_neg (snd ?T))"
    using signed_tangent_value [of R sA t] by (simp add: sign_ok_neg)
  have v: "fst (s_neg (snd ?T)) = - snd (ellipse_tangent R sA t)"
    "fst (fst ?T) = fst (ellipse_tangent R sA t)"
    using signed_tangent_value [of R sA t] by (simp_all add: s_neg_def)
  have l: "sqrt ((- snd (ellipse_tangent R sA t))\<^sup>2 + (fst (ellipse_tangent R sA t))\<^sup>2)
      = spec_speed R sA t"
    by (simp add: spec_speed_def add.commute)
  from atan2_polar [OF ok, of "fst ?T"] show ?thesis
    unfolding stator_alpha_def v l .
qed

lemma rotor_beta_polar:
  "spec_speed r rA u * cos (rotor_beta r rA u) = snd (ellipse_tangent r rA u)
   \<and> spec_speed r rA u * sin (rotor_beta r rA u) = - fst (ellipse_tangent r rA u)"
proof -
  let ?T = "signed_tangent r rA u"
  have ok: "sign_ok (snd ?T)"
    using signed_tangent_value [of r rA u] by simp
  have v: "fst (snd ?T) = snd (ellipse_tangent r rA u)"
    "fst (s_mul (fst ?T) (plain (- 1))) = - fst (ellipse_tangent r rA u)"
    using signed_tangent_value [of r rA u] by (simp_all add: s_mul_def plain_def)
  have l: "sqrt ((snd (ellipse_tangent r rA u))\<^sup>2 + (- fst (ellipse_tangent r rA u))\<^sup>2)
      = spec_speed r rA u"
    by (simp add: spec_speed_def add.commute)
  from atan2_polar [OF ok, of "s_mul (fst ?T) (plain (- 1))"] show ?thesis
    unfolding rotor_beta_def v l .
qed

text \<open>
  Rolling contact: turned by \<open>\<phi> = \<alpha> - \<beta> + \<pi>\<close>, the rotor's tangent at \<open>u\<close> points along the
  stator's tangent at \<open>t\<close>.
\<close>

lemma align_algebra:
  fixes p ca sa cb sb :: real
  assumes "sb * sb + cb * cb = 1"
  shows "- (p * sb) * - (ca * cb + sa * sb) - p * cb * - (sa * cb - ca * sb) = p * sa"
    and "- (p * sb) * - (sa * cb - ca * sb) + p * cb * - (ca * cb + sa * sb) = - (p * ca)"
proof -
  have "- (p * sb) * - (ca * cb + sa * sb) - p * cb * - (sa * cb - ca * sb)
      = p * sa * (sb * sb + cb * cb)"
    by (simp add: algebra_simps)
  with assms show "- (p * sb) * - (ca * cb + sa * sb) - p * cb * - (sa * cb - ca * sb) = p * sa"
    by simp
  have "- (p * sb) * - (sa * cb - ca * sb) + p * cb * - (ca * cb + sa * sb)
      = - (p * ca * (sb * sb + cb * cb))"
    by (simp add: algebra_simps)
  with assms show "- (p * sb) * - (sa * cb - ca * sb) + p * cb * - (ca * cb + sa * sb) = - (p * ca)"
    by simp
qed

lemma tangents_aligned:
  "spec_speed R sA t * fst (rotate_by (spec_numeric_phi R sA r rA t u) (ellipse_tangent r rA u))
     = spec_speed r rA u * fst (ellipse_tangent R sA t)
   \<and> spec_speed R sA t * snd (rotate_by (spec_numeric_phi R sA r rA t u) (ellipse_tangent r rA u))
     = spec_speed r rA u * snd (ellipse_tangent R sA t)"
proof -
  let ?a = "stator_alpha R sA t" and ?b = "rotor_beta r rA u"
  let ?s = "spec_speed R sA t" and ?p = "spec_speed r rA u"
  have cs: "cos (?a - ?b + pi) = - (cos ?a * cos ?b + sin ?a * sin ?b)"
    "sin (?a - ?b + pi) = - (sin ?a * cos ?b - cos ?a * sin ?b)"
    by (simp_all add: cos_diff sin_diff)
  have one: "sin ?b * sin ?b + cos ?b * cos ?b = 1"
    using sin_cos_squared_add [of ?b] by (simp add: power2_eq_square)
  from rotor_beta_polar [of r rA u]
  have rt: "fst (ellipse_tangent r rA u) = - (?p * sin ?b)"
    "snd (ellipse_tangent r rA u) = ?p * cos ?b" by simp_all
  from stator_alpha_polar [of R sA t]
  have st: "fst (ellipse_tangent R sA t) = ?s * sin ?a"
    "snd (ellipse_tangent R sA t) = - (?s * cos ?a)" by simp_all
  note x = align_algebra [OF one, where p = ?p and ca = "cos ?a" and sa = "sin ?a"]
  have "fst (rotate_by (?a - ?b + pi) (ellipse_tangent r rA u))
      = - (?p * sin ?b) * - (cos ?a * cos ?b + sin ?a * sin ?b)
        - ?p * cos ?b * - (sin ?a * cos ?b - cos ?a * sin ?b)"
    by (simp only: rotate_by_def fst_conv snd_conv cs rt)
  also have "\<dots> = ?p * sin ?a" by (rule x(1))
  finally have f: "fst (rotate_by (?a - ?b + pi) (ellipse_tangent r rA u)) = ?p * sin ?a" .
  have "snd (rotate_by (?a - ?b + pi) (ellipse_tangent r rA u))
      = - (?p * sin ?b) * - (sin ?a * cos ?b - cos ?a * sin ?b)
        + ?p * cos ?b * - (cos ?a * cos ?b + sin ?a * sin ?b)"
    by (simp only: rotate_by_def fst_conv snd_conv cs rt)
  also have "\<dots> = - (?p * cos ?a)" by (rule x(2))
  finally have g: "snd (rotate_by (?a - ?b + pi) (ellipse_tangent r rA u)) = - (?p * cos ?a)" .
  show ?thesis
    unfolding spec_numeric_phi_def f g st by simp
qed

text \<open>Drawn before any step, the rotor is not turned: at \<open>t = u = 0\<close> the rotation is 0.\<close>

lemma getGeometry_initial:
  assumes "0 < R" "0 < r" "0 < sA" "0 < rA"
  shows "phi (getGeometry 0 0 R r d sA rA) = 0"
  using assms
  by (simp add: getGeometry_def atan2_def s_mul_def s_neg_def plain_def Let_def
      mult_less_0_iff not_less)

text \<open>
  C2, as stated, fails where the rotor speed is zero: for a rotor of aspect 0 (numeric mode)
  the first stage of the first sub-step, at \<open>t = u = 0\<close>, has stator speed 90 and rotor speed
  0, and the code's derivative is \<open>90 / 0.0001 = 900000\<close>, which is no quotient of the stator
  speed by the rotor speed.
\<close>

theorem numeric_zero_speed_counterexample:
  "\<not> isCircular zeroAspectConfig
   \<and> angleRef initialState = 0 \<and> rotorParamRef initialState = 0
   \<and> spec_speed (outerRadius zeroAspectConfig) (statorAspect zeroAspectConfig) 0 = 90
   \<and> spec_speed (innerRadius zeroAspectConfig) (rotorAspect zeroAspectConfig) 0 = 0
   \<and> getDerivative 0 0 (outerRadius zeroAspectConfig) (statorAspect zeroAspectConfig)
         (innerRadius zeroAspectConfig) (rotorAspect zeroAspectConfig) = 900000
   \<and> getDerivative 0 0 (outerRadius zeroAspectConfig) (statorAspect zeroAspectConfig)
         (innerRadius zeroAspectConfig) (rotorAspect zeroAspectConfig)
         * spec_speed (innerRadius zeroAspectConfig) (rotorAspect zeroAspectConfig) 0
       \<noteq> spec_speed (outerRadius zeroAspectConfig) (statorAspect zeroAspectConfig) 0
   \<and> getDerivative 0 0 (outerRadius zeroAspectConfig) (statorAspect zeroAspectConfig)
         (innerRadius zeroAspectConfig) (rotorAspect zeroAspectConfig)
       \<noteq> spec_dudt (outerRadius zeroAspectConfig) (statorAspect zeroAspectConfig)
           (innerRadius zeroAspectConfig) (rotorAspect zeroAspectConfig) 0 0"
proof -
  have c: "outerRadius zeroAspectConfig = 150" "statorAspect zeroAspectConfig = 3 / 5"
    "innerRadius zeroAspectConfig = 52" "rotorAspect zeroAspectConfig = 0"
    by (simp_all add: zeroAspectConfig_def ellipticConfig_def DEFAULT_CONFIG_def)
  have s: "spec_speed 150 (3 / 5) 0 = 90" "spec_speed 52 0 0 = 0"
    by (simp_all add: spec_speed_def ellipse_tangent_def)
  have d: "getDerivative 0 0 150 (3 / 5) 52 0 = 900000"
    by (simp add: derivative_guarded s)
  have n: "\<not> isCircular zeroAspectConfig"
    by (simp add: isCircular_def c)
  show ?thesis
    unfolding c using n by (simp add: s d spec_dudt_def initialState_def)
qed

text \<open>The sub-step for whatever function the derivative is.\<close>

lemma numeric_substep_generic:
  assumes "\<not> isCircular cfg"
    and g: "\<And>t u. getDerivative t u (outerRadius cfg) (statorAspect cfg) (innerRadius cfg)
                    (rotorAspect cfg) = g t u"
  shows "(let R = outerRadius cfg; r = innerRadius cfg; d = penOffset cfg;
              sA = statorAspect cfg; rA = rotorAspect cfg;
              t = angleRef s; u = rotorParamRef s;
              f = g;
              k1 = f t u;
              k2 = f (t + dt / 2) (u + dt * k1 / 2);
              k3 = f (t + dt / 2) (u + dt * k2 / 2);
              k4 = f (t + dt) (u + dt * k3);
              u' = u + (dt / 6) * (k1 + 2 * k2 + 2 * k3 + k4);
              t' = t + dt;
              ph = stator_alpha R sA t' - rotor_beta r rA u' + pi;
              contact = ellipse_point R sA t';
              arm = rotate_by ph (ellipse_point r rA u');
              centre = (fst contact - fst arm, snd contact - snd arm);
              pen = (fst centre + d * cos ph, snd centre + d * sin ph);
              st = calculatePhysicsStep t dt u R r d sA rA
          in subStep cfg s =
               s\<lparr>angleRef := t', rotorParamRef := u', rotorRotationRef := ph,
                 pointsRef := pointsRef s @ [pen]\<rparr>
           \<and> newU st = u' \<and> phi st = ph \<and> (cx st, cy st) = centre \<and> (px st, py st) = pen
           \<and> (contactX st, contactY st) = contact)"
proof -
  have nu: "newU (calculatePhysicsStep t h u (outerRadius cfg) (innerRadius cfg) (penOffset cfg)
                    (statorAspect cfg) (rotorAspect cfg)) = rk4_step g t u h" for t h u
    by (simp add: physics_newU g)
  show ?thesis
    using assms(1)
    by (simp add: subStep_def physics_fields nu getGeometry_spec Let_def)
       (simp add: rk4_step_def rk4_stages_def Let_def spec_numeric_pen_def
          spec_numeric_center_def spec_numeric_phi_def)
qed

text \<open>
  C2, amended. In numeric mode a sub-step evaluates
  \<open>du/dt = statorSpeed t / rotorSpeed u\<close>, with a rotor speed of exactly zero replaced by
  0.0001, the speeds being the lengths of the tangent vectors, at the four Runge-Kutta stage
  points, advances \<open>u\<close> by \<open>(dt / 6) (k1 + 2 k2 + 2 k3 + k4)\<close> and \<open>t\<close> by \<open>dt\<close>, and rebuilds
  the geometry at the new \<open>(t, u)\<close>: \<open>\<phi> = \<alpha> - \<beta> + \<pi>\<close>, the rotor centre is the stator contact
  point minus the rotor's centre-to-contact vector turned by \<open>\<phi>\<close>, the pen is the centre plus
  \<open>d (cos \<phi>, sin \<phi>)\<close>. For a rotor of positive radius and aspect the rotor speed is positive
  everywhere, so the replacement never happens. Here \<open>\<alpha>\<close> and \<open>\<beta>\<close> are angles in
  \<open>[-\<pi>, \<pi>]\<close> of the stator's tangent turned a quarter turn to the left and of the rotor's
  tangent turned a quarter turn to the right, and \<open>\<phi>\<close> turns the rotor's tangent onto the
  direction of the stator's; at the parameter 0, for positive radius and aspect, \<open>\<alpha> = -\<pi>\<close>
  and \<open>\<beta> = 0\<close>.
\<close>

theorem numeric_substep_rk4:
  assumes "\<not> isCircular cfg"
  shows "(let R = outerRadius cfg; r = innerRadius cfg; d = penOffset cfg;
              sA = statorAspect cfg; rA = rotorAspect cfg;
              t = angleRef s; u = rotorParamRef s;
              f = (\<lambda>t u. spec_speed R sA t /
                           (if spec_speed r rA u = 0 then 0.0001 else spec_speed r rA u));
              k1 = f t u;
              k2 = f (t + dt / 2) (u + dt * k1 / 2);
              k3 = f (t + dt / 2) (u + dt * k2 / 2);
              k4 = f (t + dt) (u + dt * k3);
              u' = u + (dt / 6) * (k1 + 2 * k2 + 2 * k3 + k4);
              t' = t + dt;
              ph = stator_alpha R sA t' - rotor_beta r rA u' + pi;
              contact = ellipse_point R sA t';
              arm = rotate_by ph (ellipse_point r rA u');
              centre = (fst contact - fst arm, snd contact - snd arm);
              pen = (fst centre + d * cos ph, snd centre + d * sin ph);
              st = calculatePhysicsStep t dt u R r d sA rA
          in subStep cfg s =
               s\<lparr>angleRef := t', rotorParamRef := u', rotorRotationRef := ph,
                 pointsRef := pointsRef s @ [pen]\<rparr>
           \<and> newU st = u' \<and> phi st = ph \<and> (cx st, cy st) = centre \<and> (px st, py st) = pen
           \<and> (contactX st, contactY st) = contact)
     \<and> (0 < innerRadius cfg \<and> 0 < rotorAspect cfg \<longrightarrow>
          0 < spec_speed (innerRadius cfg) (rotorAspect cfg) ua
          \<and> getDerivative ta ua (outerRadius cfg) (statorAspect cfg) (innerRadius cfg)
               (rotorAspect cfg)
             = spec_speed (outerRadius cfg) (statorAspect cfg) ta
               / spec_speed (innerRadius cfg) (rotorAspect cfg) ua)
     \<and> (let R = outerRadius cfg; r = innerRadius cfg; sA = statorAspect cfg;
              rA = rotorAspect cfg;
              alpha = stator_alpha R sA ta; beta = rotor_beta r rA ua;
              ph = alpha - beta + pi
          in - pi \<le> alpha \<and> alpha \<le> pi \<and> - pi \<le> beta \<and> beta \<le> pi
           \<and> spec_speed R sA ta * cos alpha = - snd (ellipse_tangent R sA ta)
           \<and> spec_speed R sA ta * sin alpha = fst (ellipse_tangent R sA ta)
           \<and> spec_speed r rA ua * cos beta = snd (ellipse_tangent r rA ua)
           \<and> spec_speed r rA ua * sin beta = - fst (ellipse_tangent r rA ua)
           \<and> spec_speed R sA ta * fst (rotate_by ph (ellipse_tangent r rA ua))
               = spec_speed r rA ua * fst (ellipse_tangent R sA ta)
           \<and> spec_speed R sA ta * snd (rotate_by ph (ellipse_tangent r rA ua))
               = spec_speed r rA ua * snd (ellipse_tangent R sA ta))
     \<and> (0 < outerRadius cfg \<and> 0 < statorAspect cfg \<longrightarrow>
          stator_alpha (outerRadius cfg) (statorAspect cfg) 0 = - pi)
     \<and> (0 < innerRadius cfg \<and> 0 < rotorAspect cfg \<longrightarrow>
          rotor_beta (innerRadius cfg) (rotorAspect cfg) 0 = 0)"
proof -
  let ?R = "outerRadius cfg" and ?r = "innerRadius cfg" and ?d = "penOffset cfg"
    and ?sA = "statorAspect cfg" and ?rA = "rotorAspect cfg"
  let ?f = "\<lambda>t u. spec_speed ?R ?sA t /
                   (if spec_speed ?r ?rA u = 0 then 0.0001 else spec_speed ?r ?rA u)"
  have 1: "(let R = outerRadius cfg; r = innerRadius cfg; d = penOffset cfg;
              sA = statorAspect cfg; rA = rotorAspect cfg;
              t = angleRef s; u = rotorParamRef s;
              f = (\<lambda>t u. spec_speed R sA t /
                           (if spec_speed r rA u = 0 then 0.0001 else spec_speed r rA u));
              k1 = f t u;
              k2 = f (t + dt / 2) (u + dt * k1 / 2);
              k3 = f (t + dt / 2) (u + dt * k2 / 2);
              k4 = f (t + dt) (u + dt * k3);
              u' = u + (dt / 6) * (k1 + 2 * k2 + 2 * k3 + k4);
              t' = t + dt;
              ph = stator_alpha R sA t' - rotor_beta r rA u' + pi;
              contact = ellipse_point R sA t';
              arm = rotate_by ph (ellipse_point r rA u');
              centre = (fst contact - fst arm, snd contact - snd arm);
              pen = (fst centre + d * cos ph, snd centre + d * sin ph);
              st = calculatePhysicsStep t dt u R r d sA rA
          in subStep cfg s =
               s\<lparr>angleRef := t', rotorParamRef := u', rotorRotationRef := ph,
                 pointsRef := pointsRef s @ [pen]\<rparr>
           \<and> newU st = u' \<and> phi st = ph \<and> (cx st, cy st) = centre \<and> (px st, py st) = pen
           \<and> (contactX st, contactY st) = contact)"
    using numeric_substep_generic [OF assms, of ?f s, OF derivative_guarded]
    unfolding Let_def .
  have 2: "0 < spec_speed ?r ?rA ua
      \<and> getDerivative ta ua ?R ?sA ?r ?rA = spec_speed ?R ?sA ta / spec_speed ?r ?rA ua"
    if "0 < ?r \<and> 0 < ?rA"
    using that metric_pos [of ?r ?rA ua] derivative_is_quotient [of ?r ?rA ta ua ?R ?sA]
    by (simp add: metric_is_speed spec_dudt_def)
  have 3: "(let R = outerRadius cfg; r = innerRadius cfg; sA = statorAspect cfg;
              rA = rotorAspect cfg;
              alpha = stator_alpha R sA ta; beta = rotor_beta r rA ua;
              ph = alpha - beta + pi
          in - pi \<le> alpha \<and> alpha \<le> pi \<and> - pi \<le> beta \<and> beta \<le> pi
           \<and> spec_speed R sA ta * cos alpha = - snd (ellipse_tangent R sA ta)
           \<and> spec_speed R sA ta * sin alpha = fst (ellipse_tangent R sA ta)
           \<and> spec_speed r rA ua * cos beta = snd (ellipse_tangent r rA ua)
           \<and> spec_speed r rA ua * sin beta = - fst (ellipse_tangent r rA ua)
           \<and> spec_speed R sA ta * fst (rotate_by ph (ellipse_tangent r rA ua))
               = spec_speed r rA ua * fst (ellipse_tangent R sA ta)
           \<and> spec_speed R sA ta * snd (rotate_by ph (ellipse_tangent r rA ua))
               = spec_speed r rA ua * snd (ellipse_tangent R sA ta))"
    unfolding Let_def
    using atan2_range [of "fst (signed_tangent ?R ?sA ta)" "s_neg (snd (signed_tangent ?R ?sA ta))"]
      atan2_range [of "s_mul (fst (signed_tangent ?r ?rA ua)) (plain (- 1))"
        "snd (signed_tangent ?r ?rA ua)"]
      stator_alpha_polar [of ?R ?sA ta] rotor_beta_polar [of ?r ?rA ua]
      tangents_aligned [of ?R ?sA ta ?r ?rA ua]
    unfolding stator_alpha_def [symmetric] rotor_beta_def [symmetric] spec_numeric_phi_def
    by (intro conjI) (elim conjE, assumption)+
  have 4: "stator_alpha ?R ?sA 0 = - pi" if "0 < ?R \<and> 0 < ?sA"
    using that
    by (simp add: stator_alpha_def signed_tangent_def atan2_def s_mul_def s_neg_def plain_def
        mult_less_0_iff not_less)
  have 5: "rotor_beta ?r ?rA 0 = 0" if "0 < ?r \<and> 0 < ?rA"
    using that
    by (simp add: rotor_beta_def signed_tangent_def atan2_def s_mul_def s_neg_def plain_def
        mult_less_0_iff not_less)
  from 1 2 3 4 5 show ?thesis by blast
qed

theorem numeric_substep_rk4_witness:
  "\<not> isCircular ellipticConfig \<and> 0 < innerRadius ellipticConfig \<and> 0 < rotorAspect ellipticConfig
   \<and> angleRef (subStep ellipticConfig initialState) = 0.002
   \<and> rotorParamRef (subStep ellipticConfig initialState)
       = newU (calculatePhysicsStep 0 0.002 0 150 52 70 0.6 1.5)
   \<and> 0 < spec_speed 52 1.5 0
   \<and> getDerivative 0 0 150 0.6 52 1.5 = spec_speed 150 0.6 0 / spec_speed 52 1.5 0
   \<and> 0 < outerRadius ellipticConfig \<and> 0 < statorAspect ellipticConfig
   \<and> stator_alpha 150 0.6 0 = - pi \<and> rotor_beta 52 1.5 0 = 0"
proof -
  have a: "\<not> isCircular ellipticConfig"
    by (simp add: ellipticConfig_def DEFAULT_CONFIG_def isCircular_def)
  have b: "0 < innerRadius ellipticConfig \<and> 0 < rotorAspect ellipticConfig"
    by (simp add: ellipticConfig_def DEFAULT_CONFIG_def)
  note th = numeric_substep_rk4 [OF a, of initialState 0 0, unfolded Let_def]
  note th1 = th [THEN conjunct1]
  have c: "0 < outerRadius ellipticConfig \<and> 0 < statorAspect ellipticConfig"
    by (simp add: ellipticConfig_def DEFAULT_CONFIG_def)
  note th2 = th [THEN conjunct2, THEN conjunct1, rule_format, OF b]
  note th4 = th [THEN conjunct2, THEN conjunct2, THEN conjunct2, THEN conjunct1, rule_format,
      OF c]
  note th5 = th [THEN conjunct2, THEN conjunct2, THEN conjunct2, THEN conjunct2, rule_format,
      OF b]
  let ?st = "calculatePhysicsStep (angleRef initialState) dt (rotorParamRef initialState)
      (outerRadius ellipticConfig) (innerRadius ellipticConfig) (penOffset ellipticConfig)
      (statorAspect ellipticConfig) (rotorAspect ellipticConfig)"
  from th1 have 1: "subStep ellipticConfig initialState =
     initialState\<lparr>angleRef := angleRef initialState + dt,
       rotorParamRef := newU ?st, rotorRotationRef := phi ?st,
       pointsRef := pointsRef initialState @ [(px ?st, py ?st)]\<rparr>"
    by (elim conjE) simp
  have 2: "angleRef (subStep ellipticConfig initialState) = 0.002
   \<and> rotorParamRef (subStep ellipticConfig initialState)
       = newU (calculatePhysicsStep 0 0.002 0 150 52 70 0.6 1.5)"
    by (simp add: 1) (simp add: ellipticConfig_def DEFAULT_CONFIG_def initialState_def dt_def)
  from th2 have 3: "0 < spec_speed 52 1.5 0
   \<and> getDerivative 0 0 150 0.6 52 1.5 = spec_speed 150 0.6 0 / spec_speed 52 1.5 0"
    by (simp add: ellipticConfig_def DEFAULT_CONFIG_def)
  from th4 th5 have 4: "stator_alpha 150 0.6 0 = - pi \<and> rotor_beta 52 1.5 0 = 0"
    by (simp add: ellipticConfig_def DEFAULT_CONFIG_def)
  from a b c 2 3 4 show ?thesis by simp
qed

section \<open>Zooming about an anchor\<close>

lemma clamp_bounds: "kMin \<le> max 0.1 (min 20 v) \<and> max 0.1 (min 20 v) \<le> kMax"
  by (simp add: kMin_def kMax_def)

lemma clamp_eq: "max 0.1 (min 20 v) = max kMin (min kMax v)"
  by (simp add: kMin_def kMax_def)

lemma wheelUpdate_k: "tr_k (wheelUpdate mx my W H s tr) = max kMin (min kMax (tr_k tr * s))"
  by (simp add: wheelUpdate_def Let_def kMin_def kMax_def)

lemma anchor_algebra:
  fixes m c w k :: real
  assumes "k \<noteq> 0"
  shows "(m - (c + (m - c - w * k))) / k = w"
  using assms by (simp add: field_simps)

lemma worldAt_screenAt:
  "tr_k tr \<noteq> 0 \<Longrightarrow> worldAt W H tr (screenAt W H tr w) = w"
  by (simp add: worldAt_def screenAt_def)

lemma screenAt_worldAt:
  "tr_k tr \<noteq> 0 \<Longrightarrow> screenAt W H tr (worldAt W H tr p) = p"
  by (simp add: worldAt_def screenAt_def)

lemma wheelUpdate_anchor:
  "worldAt W H (wheelUpdate mx my W H s tr) (mx, my) = worldAt W H tr (mx, my)"
proof -
  have "max 0.1 (min 20 (tr_k tr * s)) \<noteq> (0::real)" by simp
  then show ?thesis
    by (simp add: worldAt_def wheelUpdate_def Let_def anchor_algebra)
qed

lemma pinchUpdate_wheelUpdate:
  "pinchUpdate (Some rect) midX midY s tr =
     wheelUpdate (midX - rect_left rect) (midY - rect_top rect) (rect_width rect) (rect_height rect) s tr"
  by (simp add: pinchUpdate_def wheelUpdate_def Let_def)

lemma handleWheel_wheelUpdate:
  "handleWheel (Some rect) e tr =
     wheelUpdate (wheelX e - rect_left rect) (wheelY e - rect_top rect) (rect_width rect) (rect_height rect)
       (exp (- deltaY e * 0.001)) tr"
  by (simp add: handleWheel_def Let_def)

lemma pinchMove_cases:
  "snd (pinchMove container p1 p2 (Some pd) tr) =
     (if \<bar>sqrt ((fst p2 - fst p1)\<^sup>2 + (snd p2 - snd p1)\<^sup>2) / pd - 1\<bar> > 0.005
      then pinchUpdate container ((fst p1 + fst p2) / 2) ((snd p1 + snd p2) / 2)
             (sqrt ((fst p2 - fst p1)\<^sup>2 + (snd p2 - snd p1)\<^sup>2) / pd) tr
      else tr)"
  by (simp add: pinchMove_def Let_def)

text \<open>The handler with one pointer down pans; with two it runs the pinch branch.\<close>

lemma handlePointerMove_pinch:
  assumes "pointersRef g = [(i, q), (j, p)]" "i \<noteq> j" "pointerId e = j"
  shows "snd (handlePointerMove container e (g, tr)) =
     snd (pinchMove container (clientX e, clientY e) q (prevPinchDistRef g) tr)"
  using assms by (simp add: handlePointerMove_def Let_def)

lemma handlePointerMove_pinch':
  assumes "pointersRef g = [(i, q), (j, p)]" "i \<noteq> j" "pointerId e = i"
  shows "snd (handlePointerMove container e (g, tr)) =
     snd (pinchMove container (clientX e, clientY e) p (prevPinchDistRef g) tr)"
  using assms by (simp add: handlePointerMove_def Let_def)

lemma handlePointerMove_pan:
  assumes "pointersRef g = [(i, q)]" "pointerId e = i"
  shows "snd (handlePointerMove container e (g, tr)) =
     tr\<lparr>tr_x := tr_x tr + (clientX e - fst q), tr_y := tr_y tr + (clientY e - snd q)\<rparr>"
  using assms by (simp add: handlePointerMove_def Let_def)

text \<open>
  C4, as stated, fails for the pinch gesture: a pinch whose scale factor is within 0.005 of
  1 is dropped, so the scale stays \<open>k\<close> instead of becoming the clamped \<open>k s\<close>. Here the
  second finger moves so that the two are 1004 instead of 1000 pixels apart, at scale 1.
\<close>

theorem pinch_dead_zone_counterexample:
  "0 < tr_k initialTransform
   \<and> sqrt ((0 - 1004)\<^sup>2 + (0 - 0)\<^sup>2) / 1000 = (1004 / 1000 :: real)
   \<and> tr_k (snd (handlePointerMove (Some viewport) \<lparr>pointerId = 2, clientX = 1004, clientY = 0\<rparr>
               (twoFingers, initialTransform)))
       \<noteq> max kMin (min kMax (tr_k initialTransform * (1004 / 1000)))"
  by (simp add: handlePointerMove_def pinchMove_def Let_def twoFingers_def initialTransform_def
      kMin_def kMax_def)

text \<open>
  C4, amended. For every transform with \<open>k > 0\<close>, every anchor and every scale factor, the
  wheel zoom, and the pinch zoom when its factor differs from 1 by more than 0.005 (with the
  container mounted and a positive previous distance), set the scale to the clamped \<open>k s\<close>
  and the offset so that the world coordinate under the anchor is the same before and after,
  also when the scale is clamped; a pinch whose factor is within 0.005 of 1 leaves the
  transform as it is.
\<close>

theorem zoom_preserves_anchor:
  assumes "0 < tr_k tr"
  shows "(let a = (wheelX e - rect_left rect, wheelY e - rect_top rect);
              tr' = handleWheel (Some rect) e tr
          in tr_k tr' = max kMin (min kMax (tr_k tr * exp (- deltaY e * 0.001)))
           \<and> worldAt (rect_width rect) (rect_height rect) tr' a
               = worldAt (rect_width rect) (rect_height rect) tr a)
     \<and> tr_k (wheelUpdate mx my W H s tr) = max kMin (min kMax (tr_k tr * s))
     \<and> worldAt W H (wheelUpdate mx my W H s tr) (mx, my) = worldAt W H tr (mx, my)
     \<and> (0 < pd \<longrightarrow>
          (let sf = sqrt ((fst p2 - fst p1)\<^sup>2 + (snd p2 - snd p1)\<^sup>2) / pd;
               mid = ((fst p1 + fst p2) / 2, (snd p1 + snd p2) / 2);
               a = (fst mid - rect_left rect, snd mid - rect_top rect);
               tr' = snd (pinchMove (Some rect) p1 p2 (Some pd) tr)
           in (\<bar>sf - 1\<bar> > 0.005 \<longrightarrow>
                 tr_k tr' = max kMin (min kMax (tr_k tr * sf))
                 \<and> worldAt (rect_width rect) (rect_height rect) tr' a
                     = worldAt (rect_width rect) (rect_height rect) tr a)
            \<and> (\<bar>sf - 1\<bar> \<le> 0.005 \<longrightarrow> tr' = tr)))"
  by (simp add: handleWheel_wheelUpdate wheelUpdate_k wheelUpdate_anchor pinchMove_cases
      pinchUpdate_wheelUpdate Let_def)

theorem zoom_preserves_anchor_witness:
  "0 < tr_k initialTransform
   \<and> tr_k (handleWheel (Some viewport) \<lparr>wheelX = 100, wheelY = 50, deltaY = - 20000\<rparr>
            initialTransform) = 20
   \<and> worldAt 800 600
        (handleWheel (Some viewport) \<lparr>wheelX = 100, wheelY = 50, deltaY = - 20000\<rparr>
           initialTransform) (100, 50) = (- 300, - 250)
   \<and> (0::real) < 100
   \<and> tr_k (snd (pinchMove (Some viewport) (0, 0) (200, 0) (Some 100) initialTransform)) = 2
   \<and> worldAt 800 600 (snd (pinchMove (Some viewport) (0, 0) (200, 0) (Some 100) initialTransform))
        (100, 0) = (- 300, - 300)
   \<and> snd (pinchMove (Some viewport) (0, 0) (1004, 0) (Some 1000) initialTransform)
       = initialTransform"
proof -
  let ?e = "\<lparr>wheelX = 100, wheelY = 50, deltaY = - 20000\<rparr>"
  have k: "0 < tr_k initialTransform" by (simp add: initialTransform_def)
  have e: "(20::real) \<le> exp 20" using exp_ge_add_one_self [of "20::real"] by simp
  note th = zoom_preserves_anchor [OF k, of ?e viewport 0 0 0 0 1 100 "(200, 0)" "(0, 0)",
      unfolded Let_def]
  note th' = zoom_preserves_anchor [OF k, of ?e viewport 0 0 0 0 1 1000 "(1004, 0)" "(0, 0)",
      unfolded Let_def]
  note w1 = th [THEN conjunct1, THEN conjunct1]
  note w2 = th [THEN conjunct1, THEN conjunct2]
  note pa = th [THEN conjunct2, THEN conjunct2, THEN conjunct2]
  note pb = th' [THEN conjunct2, THEN conjunct2, THEN conjunct2]
  have p1: "tr_k (snd (pinchMove (Some viewport) (0, 0) (200, 0) (Some 100) initialTransform)) = 2"
    using pa by (simp add: initialTransform_def kMin_def kMax_def)
  have p2: "worldAt 800 600
        (snd (pinchMove (Some viewport) (0, 0) (200, 0) (Some 100) initialTransform)) (100, 0)
      = (- 300, - 300)"
    using pa by (simp add: viewport_def) (simp add: worldAt_def initialTransform_def)
  have p3: "snd (pinchMove (Some viewport) (0, 0) (1004, 0) (Some 1000) initialTransform)
       = initialTransform"
    using pb by simp
  have w1': "tr_k (handleWheel (Some viewport) ?e initialTransform) = 20"
    using e w1 by (simp add: initialTransform_def kMin_def kMax_def)
  have w2': "worldAt 800 600 (handleWheel (Some viewport) ?e initialTransform) (100, 50)
      = (- 300, - 250)"
    using w2 by (simp add: viewport_def) (simp add: worldAt_def initialTransform_def)
  from k w1' w2' p1 p2 p3 show ?thesis by simp
qed

section \<open>Bounds of the scale\<close>

lemma zoomIn_iter: "tr_k (applyViewOps (replicate n ZoomInButton) tr) = tr_k tr * 1.2 ^ n"
  by (induction n arbitrary: tr) (simp_all add: applyViewOps_def zoomInClick_def)

lemma zoomOut_iter: "tr_k (applyViewOps (replicate n ZoomOutButton) tr) = tr_k tr / 1.2 ^ n"
  by (induction n arbitrary: tr) (simp_all add: applyViewOps_def zoomOutClick_def)


lemma clamp5_bounds: "kMin \<le> max 0.1 (min 5 v) \<and> max 0.1 (min 5 v) \<le> kMax"
  by (simp add: kMin_def kMax_def)

lemma optimalScale_bounds:
  "kMin \<le> calculateOptimalScale cfg w h \<and> calculateOptimalScale cfg w h \<le> kMax"
  unfolding calculateOptimalScale_def Let_def by (rule clamp5_bounds)

lemma pinchUpdate_k:
  "tr_k (pinchUpdate c mx my s tr) = max 0.1 (min 20 (tr_k tr * s))"
  by (cases c) (simp_all add: pinchUpdate_def Let_def)

lemma gestures_keep_bounds:
  assumes "kMin \<le> tr_k tr" "tr_k tr \<le> kMax" "op \<noteq> ZoomInButton" "op \<noteq> ZoomOutButton"
  shows "kMin \<le> tr_k (applyViewOp op tr) \<and> tr_k (applyViewOp op tr) \<le> kMax"
proof (cases op)
  case (WheelZoom c e)
  then show ?thesis using assms(1,2) clamp_bounds
    by (cases c) (simp_all add: handleWheel_def wheelUpdate_def Let_def)
next
  case (PinchZoom c p1 p2 pd)
  then show ?thesis using assms(1,2) clamp_bounds
    by (simp add: pinchMove_cases pinchUpdate_k)
next
  case (ResetView cfg w h)
  then show ?thesis using optimalScale_bounds [of cfg w h] by (simp add: resetViewClick_def)
qed (use assms in simp_all)

lemma clamped_buttons_keep_bounds:
  assumes "kMin \<le> tr_k tr" "tr_k tr \<le> kMax"
  shows "kMin \<le> tr_k (handleZoomIn tr) \<and> tr_k (handleZoomIn tr) \<le> kMax
       \<and> kMin \<le> tr_k (handleZoomOut tr) \<and> tr_k (handleZoomOut tr) \<le> kMax"
  using assms by (simp add: handleZoomIn_def handleZoomOut_def kMin_def kMax_def)

text \<open>The scale a reset gives the default configuration in a window of 1920 by 1080.\<close>

lemma optimalScale_default: "calculateOptimalScale DEFAULT_CONFIG 1920 1080 = 81 / 28"
proof -
  have a: "js_or (statorAspect DEFAULT_CONFIG) 1 = 1" "js_or (rotorAspect DEFAULT_CONFIG) 1 = 1"
    by (simp_all add: DEFAULT_CONFIG_def js_or_def)
  have b: "outerRadius DEFAULT_CONFIG = 150" "innerRadius DEFAULT_CONFIG = 52"
    "penOffset DEFAULT_CONFIG = 70" "showGears DEFAULT_CONFIG = True"
    by (simp_all add: DEFAULT_CONFIG_def)
  have c: "max (\<bar>150 - 52\<bar> + 70) (max (\<bar>150 - 52\<bar> + 52 * max 1 1) (150 * max 1 1))
      = (168::real)"
    by simp
  have d: "js_or 168 1 = 168" by (simp add: js_or_def)
  have e: "max (1 / 10) (min 5 (min 1920 1080 / 2 * (9 / 10) / 168)) = (81 / 28 :: real)"
    by simp
  show ?thesis
    unfolding calculateOptimalScale_def Let_def a b
    by (simp only: if_True c d e)
qed

text \<open>
  C8. The scale does not stay within \<open>[kMin, kMax]\<close> under the view buttons of the shell:
  from the initial transform seventeen clicks on the zoom-in button take it above 20 and
  thirteen clicks on the zoom-out button take it below 0.1; so do eleven zoom-in clicks
  after a reset for the default configuration in a window of 1920 by 1080; one click at
  scale 20 gives 24, where the clamping handler of the longer shell gives 20.
\<close>

theorem zoom_buttons_leave_bounds:
  "kMin \<le> tr_k initialTransform \<and> tr_k initialTransform \<le> kMax
   \<and> kMax < tr_k (applyViewOps (replicate 17 ZoomInButton) initialTransform)
   \<and> tr_k (applyViewOps (replicate 13 ZoomOutButton) initialTransform) < kMin
   \<and> kMax < tr_k (applyViewOps (ResetView DEFAULT_CONFIG 1920 1080 # replicate 11 ZoomInButton)
                     initialTransform)
   \<and> tr_k (zoomInClick \<lparr>tr_x = 0, tr_y = 0, tr_k = 20\<rparr>) = 24
   \<and> tr_k (handleZoomIn \<lparr>tr_x = 0, tr_y = 0, tr_k = 20\<rparr>) = 20"
proof -
  have "applyViewOps (ResetView DEFAULT_CONFIG 1920 1080 # replicate 11 ZoomInButton)
          initialTransform
        = applyViewOps (replicate 11 ZoomInButton) (resetViewClick DEFAULT_CONFIG 1920 1080)"
    by (simp add: applyViewOps_def)
  moreover have "tr_k (resetViewClick DEFAULT_CONFIG 1920 1080) = 81 / 28"
    by (simp add: resetViewClick_def optimalScale_default)
  ultimately have "kMax < tr_k (applyViewOps
      (ResetView DEFAULT_CONFIG 1920 1080 # replicate 11 ZoomInButton) initialTransform)"
    by (simp add: zoomIn_iter kMax_def power_divide)
  then show ?thesis
    by (simp add: zoomIn_iter zoomOut_iter initialTransform_def kMin_def kMax_def
        zoomInClick_def handleZoomIn_def power_divide)
qed

section \<open>The ratio search\<close>

lemma round_best:
  assumes "0 < d"
  shows "errorAt val d \<le> \<bar>val - real_of_int m / real d\<bar>"
proof -
  have d: "0 < real d" using assms by simp
  have "\<bar>val * real d - real_of_int (round (val * real d))\<bar> \<le> \<bar>val * real d - real_of_int m\<bar>"
    by (rule round_diff_minimal)
  then have "\<bar>val * real d - real_of_int (round (val * real d))\<bar> / real d
      \<le> \<bar>val * real d - real_of_int m\<bar> / real d"
    using d by (simp add: divide_right_mono)
  moreover have "\<bar>val * real d - real_of_int k\<bar> / real d = \<bar>val - real_of_int k / real d\<bar>" for k
  proof -
    have "\<bar>val * real d - real_of_int k\<bar> / real d = \<bar>(val * real d - real_of_int k) / real d\<bar>"
      using d by simp
    also have "(val * real d - real_of_int k) / real d = val - real_of_int k / real d"
      using d by (simp add: field_simps)
    finally show ?thesis .
  qed
  ultimately show ?thesis by (simp add: errorAt_def)
qed

lemma errorAt_le_half: "errorAt val 1 \<le> 1 / 2"
  using of_int_round_abs_le [of val] by (simp add: errorAt_def abs_minus_commute)

lemma searchStep_cases:
  "searchStep val d b =
     (if errorAt val d < minError b
      then \<lparr>bestN = round (val * real d), bestD = d, minError = errorAt val d\<rparr> else b)"
  by (simp add: searchStep_def errorAt_def Let_def)

lemma fold_search:
  "minError (fold (searchStep val) ds b) \<le> minError b
   \<and> (\<forall>d\<in>set ds. minError (fold (searchStep val) ds b) \<le> errorAt val d)
   \<and> (fold (searchStep val) ds b = b
        \<or> (\<exists>d\<in>set ds. fold (searchStep val) ds b
              = \<lparr>bestN = round (val * real d), bestD = d, minError = errorAt val d\<rparr>))"
proof (induction ds arbitrary: b)
  case Nil
  show ?case by simp
next
  case (Cons d ds)
  let ?b' = "searchStep val d b"
  let ?S = "fold (searchStep val) ds ?b'"
  note IH = Cons.IH [of ?b']
  have le: "minError ?b' \<le> minError b" "minError ?b' \<le> errorAt val d"
    by (simp_all add: searchStep_cases)
  have b': "?b' = b \<or> ?b' = \<lparr>bestN = round (val * real d), bestD = d, minError = errorAt val d\<rparr>"
    by (simp add: searchStep_cases)
  from IH le have 1: "minError ?S \<le> minError b" by linarith
  from IH le have 2: "\<forall>d'\<in>set (d # ds). minError ?S \<le> errorAt val d'" by auto
  from IH b' have 3: "?S = b \<or> (\<exists>d'\<in>set (d # ds).
      ?S = \<lparr>bestN = round (val * real d'), bestD = d', minError = errorAt val d'\<rparr>)"
    by auto
  from 1 2 3 show ?case by simp
qed

lemma MAX_VALUE_big: "1 / 2 < MAX_VALUE"
proof -
  have "(1::real) \<le> 2 ^ 971" by simp
  moreover have "(1::real) \<le> 2 ^ 53 - 1" by simp
  ultimately have "(1::real) * 1 \<le> (2 ^ 53 - 1) * 2 ^ 971"
    by (intro mult_mono) simp_all
  then show ?thesis by (simp add: MAX_VALUE_def)
qed

lemma searchRatio_result:
  "\<exists>d\<in>{1..1000}. searchRatio val = \<lparr>bestN = round (val * real d), bestD = d, minError = errorAt val d\<rparr>
     \<and> (\<forall>d'\<in>{1..1000}. errorAt val d \<le> errorAt val d')"
proof -
  let ?b0 = "\<lparr>bestN = 0, bestD = 1, minError = MAX_VALUE\<rparr>"
  let ?ds = "[1 ..< 1001]"
  have set: "set ?ds = {1..1000}" by auto
  note F = fold_search [of val ?ds ?b0]
  have "1 \<in> set ?ds" by simp
  with F have "minError (searchRatio val) \<le> errorAt val 1" by (simp add: searchRatio_def)
  with errorAt_le_half [of val] MAX_VALUE_big have "minError (searchRatio val) < MAX_VALUE" by linarith
  then have "searchRatio val \<noteq> ?b0" by auto
  with F obtain d where d: "d \<in> set ?ds"
      "searchRatio val = \<lparr>bestN = round (val * real d), bestD = d, minError = errorAt val d\<rparr>"
    unfolding searchRatio_def by blast
  from F d have "\<forall>d'\<in>set ?ds. errorAt val d \<le> errorAt val d'" by (simp add: searchRatio_def)
  with d show ?thesis unfolding set by blast
qed

lemma searchRatio_minimal:
  "1 \<le> bestD (searchRatio val) \<and> bestD (searchRatio val) \<le> 1000
   \<and> bestN (searchRatio val) = round (val * real (bestD (searchRatio val)))
   \<and> (\<forall>d\<in>{1..1000}. \<forall>m.
        \<bar>val - real_of_int (bestN (searchRatio val)) / real (bestD (searchRatio val))\<bar>
          \<le> \<bar>val - real_of_int m / real d\<bar>)"
proof -
  from searchRatio_result [of val] obtain d where d: "d \<in> {1..1000}"
    "searchRatio val = \<lparr>bestN = round (val * real d), bestD = d, minError = errorAt val d\<rparr>"
    "\<forall>d'\<in>{1..1000}. errorAt val d \<le> errorAt val d'" by blast
  have "\<bar>val - real_of_int (round (val * real d)) / real d\<bar> \<le> \<bar>val - real_of_int m / real d'\<bar>"
    if "d' \<in> {1..1000}" for d' m
  proof -
    from that have "0 < d'" by simp
    then have "errorAt val d' \<le> \<bar>val - real_of_int m / real d'\<bar>" by (rule round_best)
    with d(3) that show ?thesis unfolding errorAt_def by force
  qed
  with d(1,2) show ?thesis by simp
qed

lemma circumference_pos:
  assumes "0 < radius" "0 < aspect"
  shows "0 < calculateEllipseCircumference radius aspect"
proof (cases "aspect = 1")
  case True
  with assms show ?thesis by (simp add: calculateEllipseCircumference_def)
next
  case False
  let ?a = radius and ?b = "radius * aspect"
  let ?h = "(?a - ?b)\<^sup>2 / (?a + ?b)\<^sup>2"
  have b: "0 < ?b" using assms by simp
  have s: "0 < ?a + ?b" using assms b by linarith
  have "(?a - ?b)\<^sup>2 \<le> (?a + ?b)\<^sup>2"
  proof -
    have "(?a + ?b)\<^sup>2 - (?a - ?b)\<^sup>2 = 4 * (?a * ?b)" by (simp add: power2_eq_square algebra_simps)
    moreover have "0 \<le> ?a * ?b" using assms b by simp
    ultimately show ?thesis by linarith
  qed
  then have h1: "?h \<le> 1" using s by (simp add: divide_le_eq_1)
  have h0: "0 \<le> ?h" by simp
  from h1 have "0 \<le> sqrt (4 - 3 * ?h)" by simp
  then have "0 < 10 + sqrt (4 - 3 * ?h)" by linarith
  with h0 have "0 \<le> (3 * ?h) / (10 + sqrt (4 - 3 * ?h))" by simp
  then have "0 < 1 + (3 * ?h) / (10 + sqrt (4 - 3 * ?h))" by linarith
  with s have "0 < pi * (?a + ?b) * (1 + (3 * ?h) / (10 + sqrt (4 - 3 * ?h)))" by simp
  with False show ?thesis by (simp add: calculateEllipseCircumference_def Let_def)
qed


lemma ratioText_search:
  "numerator cfg \<in> {None, Some 0} \<or> denominator cfg \<in> {None, Some 0} \<Longrightarrow>
   ratioText cfg = (real_of_int (bestN (searchRatio (ratioValue cfg))),
                    real (bestD (searchRatio (ratioValue cfg))))"
  by (auto simp add: ratioText_def searchedRatio_def Let_def split: option.splits)

lemma ratioValue_unhinted: "ratioValue unhintedConfig = 52 / 150"
  by (simp add: ratioValue_def unhintedConfig_def DEFAULT_CONFIG_def
      calculateEllipseCircumference_def Let_def)

text \<open>
  A fraction in lowest terms that is within \<open>1 / (2000 q)\<close> of \<open>val\<close> is what the search
  returns: every other fraction with a denominator up to 1000 is farther away, and the loop
  keeps the first denominator that reaches the minimum.
\<close>

lemma fold_search_stable:
  "(\<forall>d\<in>set ds. minError b \<le> errorAt val d) \<Longrightarrow> fold (searchStep val) ds b = b"
  by (induction ds) (simp_all add: searchStep_cases)

lemma fraction_gap:
  fixes n p :: int and d q :: nat
  assumes "0 < d" "0 < q" "n * int q \<noteq> p * int d"
  shows "1 / (real d * real q) \<le> \<bar>real_of_int n / real d - real_of_int p / real q\<bar>"
proof -
  have dq: "0 < real d * real q" using assms by simp
  have "real_of_int n / real d - real_of_int p / real q
      = real_of_int (n * int q - p * int d) / (real d * real q)"
    using assms by (simp add: field_simps)
  then have "\<bar>real_of_int n / real d - real_of_int p / real q\<bar>
      = real_of_int \<bar>n * int q - p * int d\<bar> / (real d * real q)"
    using dq by (simp add: abs_mult)
  moreover have "1 \<le> \<bar>n * int q - p * int d\<bar>" using assms(3) by linarith
  then have "1 \<le> real_of_int \<bar>n * int q - p * int d\<bar>" by linarith
  ultimately show ?thesis using dq by (simp add: divide_right_mono)
qed

lemma search_unique_best:
  fixes p :: int and q :: nat
  assumes q: "1 \<le> q" "q \<le> 1000"
    and cop: "coprime p (int q)"
    and close: "\<bar>val - real_of_int p / real q\<bar> < 1 / (2000 * real q)"
  shows "searchRatio val =
     \<lparr>bestN = p, bestD = q, minError = \<bar>val - real_of_int p / real q\<bar>\<rparr>"
proof -
  let ?e = "\<bar>val - real_of_int p / real q\<bar>"
  have qpos: "0 < real q" using q by simp
  have far: "?e < \<bar>val - real_of_int n / real d\<bar>"
    if "1 \<le> d" "d \<le> 1000" "n * int q \<noteq> p * int d" for n d
  proof -
    have dpos: "0 < real d" using that by simp
    have "real d * real q \<le> 1000 * real q" using that qpos by simp
    then have "1 / (1000 * real q) \<le> 1 / (real d * real q)"
      using dpos qpos by (simp add: frac_le)
    also have "\<dots> \<le> \<bar>real_of_int n / real d - real_of_int p / real q\<bar>"
      using that q by (intro fraction_gap) simp_all
    finally have g: "1 / (1000 * real q) \<le> \<bar>real_of_int n / real d - real_of_int p / real q\<bar>" .
    have h: "1 / (1000 * real q) = 2 * (1 / (2000 * real q))" by simp
    have "\<bar>real_of_int n / real d - real_of_int p / real q\<bar>
        \<le> \<bar>val - real_of_int n / real d\<bar> + ?e" by linarith
    with g h close show ?thesis by linarith
  qed
  have rq: "round (val * real q) = p"
  proof (rule round_unique')
    have "\<bar>val * real q - real_of_int p\<bar> = ?e * real q"
    proof -
      have "val * real q - real_of_int p = (val - real_of_int p / real q) * real q"
        using qpos by (simp add: field_simps)
      then show ?thesis using qpos by (simp add: abs_mult)
    qed
    also have "\<dots> < (1 / (2000 * real q)) * real q"
      using close qpos by (simp add: mult_strict_right_mono del: times_divide_eq_left)
    also have "\<dots> = 1 / 2000" using qpos by simp
    finally show "\<bar>val * real q - real_of_int p\<bar> < 1 / 2" by linarith
  qed
  then have eq: "errorAt val q = ?e" by (simp add: errorAt_def)
  have before: "?e < errorAt val d" if "1 \<le> d" "d < q" for d
  proof -
    have "round (val * real d) * int q \<noteq> p * int d"
    proof
      assume a: "round (val * real d) * int q = p * int d"
      have "int q dvd round (val * real d) * int q" by simp
      with a have "int q dvd int d * p" by (simp add: mult.commute)
      with cop have "int q dvd int d"
        by (simp add: coprime_commute coprime_dvd_mult_left_iff)
      then have "q dvd d" by simp
      with that show False by (auto dest: dvd_imp_le)
    qed
    with that q show ?thesis unfolding errorAt_def by (intro far) simp_all
  qed
  have all: "?e \<le> errorAt val d" if "1 \<le> d" "d \<le> 1000" for d
  proof (cases "round (val * real d) * int q = p * int d")
    case True
    have dpos: "0 < real d" using that by simp
    from True have "real_of_int (round (val * real d) * int q) = real_of_int (p * int d)"
      by (simp only:)
    then have "real_of_int (round (val * real d)) * real q = real_of_int p * real d"
      by simp
    then have "real_of_int (round (val * real d)) / real d = real_of_int p / real q"
      using dpos qpos by (simp add: field_simps)
    then show ?thesis by (simp add: errorAt_def)
  next
    case False
    with that far [of d "round (val * real d)"] show ?thesis by (simp add: errorAt_def)
  qed
  let ?b0 = "\<lparr>bestN = 0, bestD = 1, minError = MAX_VALUE\<rparr>"
  let ?b1 = "fold (searchStep val) [1 ..< q] ?b0"
  have split: "[1 ..< 1001] = [1 ..< q] @ q # [Suc q ..< 1001]"
  proof -
    have "[1 ..< q + (1001 - q)] = [1 ..< q] @ [q ..< q + (1001 - q)]"
      using q by (intro upt_add_eq_append) simp
    moreover have "q + (1001 - q) = 1001" using q by simp
    ultimately have "[1 ..< 1001] = [1 ..< q] @ [q ..< 1001]" by simp
    moreover have "[q ..< 1001] = q # [Suc q ..< 1001]"
      using q by (simp add: upt_conv_Cons)
    ultimately show ?thesis by simp
  qed
  have e_small: "?e < MAX_VALUE"
  proof -
    have "1 / (2000 * real q) \<le> 1 / 2" using q by (simp add: field_simps)
    with close MAX_VALUE_big show ?thesis by linarith
  qed
  have b1: "?e < minError ?b1"
  proof -
    from fold_search [of val "[1 ..< q]" ?b0]
    consider "?b1 = ?b0"
      | d where "d \<in> set [1 ..< q]"
          "?b1 = \<lparr>bestN = round (val * real d), bestD = d, minError = errorAt val d\<rparr>"
      by blast
    then show ?thesis
    proof cases
      case 1
      with e_small show ?thesis by simp
    next
      case 2
      with before [of d] show ?thesis by simp
    qed
  qed
  have step: "searchStep val q ?b1 = \<lparr>bestN = p, bestD = q, minError = ?e\<rparr>"
    using b1 by (simp add: searchStep_cases eq rq)
  have rest: "fold (searchStep val) [Suc q ..< 1001] \<lparr>bestN = p, bestD = q, minError = ?e\<rparr>
      = \<lparr>bestN = p, bestD = q, minError = ?e\<rparr>"
    using all by (intro fold_search_stable) simp
  have "searchRatio val = fold (searchStep val) [Suc q ..< 1001] (searchStep val q ?b1)"
    by (simp only: searchRatio_def split fold_append fold.simps comp_apply)
  then show ?thesis by (simp only: step rest)
qed


lemma searchRatio_circular: "searchRatio (26 / 75) = \<lparr>bestN = 26, bestD = 75, minError = 0\<rparr>"
proof -
  have c: "coprime (26::int) (int 75)"
    by (simp add: coprime_iff_gcd_eq_1 gcd_non_0_int)
  have "searchRatio (26 / 75) =
      \<lparr>bestN = 26, bestD = 75, minError = \<bar>26 / 75 - real_of_int 26 / real 75\<bar>\<rparr>"
    using c by (intro search_unique_best) simp_all
  then show ?thesis by simp
qed

lemma sqrt_97_bounds: "(19697 / 10000) \<le> sqrt (97 / 25) \<and> sqrt (97 / 25) \<le> (19699 / 10000)"
proof
  show "(19697 / 10000) \<le> sqrt (97 / 25)"
    by (rule real_le_rsqrt) (simp add: power2_eq_square)
  show "sqrt (97 / 25) \<le> (19699 / 10000)"
    by (rule real_le_lsqrt) (simp_all add: power2_eq_square)
qed

lemma sqrt_61_bounds: "(19525 / 10000) \<le> sqrt (61 / 16) \<and> sqrt (61 / 16) \<le> (19527 / 10000)"
proof
  show "(19525 / 10000) \<le> sqrt (61 / 16)"
    by (rule real_le_rsqrt) (simp add: power2_eq_square)
  show "sqrt (61 / 16) \<le> (19527 / 10000)"
    by (rule real_le_lsqrt) (simp_all add: power2_eq_square)
qed

lemma circumference_outer_elliptic:
  "calculateEllipseCircumference 150 (3 / 5) = pi * 240 * (1 + (3 / 16) / (10 + sqrt (61 / 16)))"
proof -
  have "((150 - 150 * (3 / 5))\<^sup>2 / (150 + 150 * (3 / 5))\<^sup>2 :: real) = 1 / 16"
    by (simp add: power2_eq_square)
  moreover have "(4 - 3 * (1 / 16) :: real) = 61 / 16" by simp
  moreover have "(150 + 150 * (3 / 5) :: real) = 240" by simp
  moreover have "(3 * (1 / 16) :: real) = 3 / 16" by simp
  ultimately show ?thesis
    unfolding calculateEllipseCircumference_def Let_def by (simp only:) simp
qed

lemma circumference_inner_elliptic:
  "calculateEllipseCircumference 52 (3 / 2) = pi * 130 * (1 + (3 / 25) / (10 + sqrt (97 / 25)))"
proof -
  have "((52 - 52 * (3 / 2))\<^sup>2 / (52 + 52 * (3 / 2))\<^sup>2 :: real) = 1 / 25"
    by (simp add: power2_eq_square)
  moreover have "(4 - 3 * (1 / 25) :: real) = 97 / 25" by simp
  moreover have "(52 + 52 * (3 / 2) :: real) = 130" by simp
  moreover have "(3 * (1 / 25) :: real) = 3 / 25" by simp
  ultimately show ?thesis
    unfolding calculateEllipseCircumference_def Let_def by (simp only:) simp
qed

lemma ratioValue_elliptic:
  "\<bar>ratioValue ellipticConfig - 223 / 414\<bar> < 1 / 828000"
proof -
  define A where "A = 1 + (3 / 25) / (10 + sqrt (97 / 25))"
  define B where "B = 1 + (3 / 16) / (10 + sqrt (61 / 16))"
  have v: "ratioValue ellipticConfig = (130 * A) / (240 * B)"
    by (simp add: ratioValue_def ellipticConfig_def DEFAULT_CONFIG_def Let_def
        circumference_outer_elliptic circumference_inner_elliptic A_def B_def)
  have x: "0 < 10 + sqrt (97 / 25)" "0 < 10 + sqrt (61 / 16)"
    using sqrt_97_bounds sqrt_61_bounds by linarith+
  have A: "10100251 / 10000000 \<le> A" "A \<le> 10100254 / 10000000"
    using sqrt_97_bounds x(1) unfolding A_def by (simp_all add: field_simps)
  have B: "10156867 / 10000000 \<le> B" "B \<le> 10156872 / 10000000"
    using sqrt_61_bounds x(2) unfolding B_def by (simp_all add: field_simps)
  have Bp: "0 < 240 * B" using B by linarith
  have "(130 * A) / (240 * B) < 223 / 414 + 1 / 828000"
    using A B Bp by (simp add: pos_divide_less_eq)
  moreover have "223 / 414 - 1 / 828000 < (130 * A) / (240 * B)"
    using A B Bp by (simp add: pos_less_divide_eq)
  ultimately show ?thesis unfolding v by linarith
qed

lemma searchRatio_elliptic:
  "bestN (searchRatio (ratioValue ellipticConfig)) = 223
   \<and> bestD (searchRatio (ratioValue ellipticConfig)) = 414"
proof -
  have c: "coprime (223::int) (int 414)"
    by (simp add: coprime_iff_gcd_eq_1 gcd_non_0_int)
  have "\<bar>ratioValue ellipticConfig - real_of_int 223 / real 414\<bar> < 1 / (2000 * real 414)"
    using ratioValue_elliptic by simp
  with c have "searchRatio (ratioValue ellipticConfig) =
      \<lparr>bestN = 223, bestD = 414,
       minError = \<bar>ratioValue ellipticConfig - real_of_int 223 / real 414\<bar>\<rparr>"
    by (intro search_unique_best) simp_all
  then show ?thesis by simp
qed

text \<open>
  C6. In the annotated export a stored hint (both parts set and not zero, as the controls
  store them) is what is displayed. Otherwise (a part unset, or zero), with \<open>val\<close> the
  quotient of the inner by the outer circumference, each by Ramanujan's approximation
  \<open>\<pi> (a + b) (1 + 3 h / (10 + sqrt (4 - 3 h)))\<close> with \<open>h = (a - b)\<^sup>2 / (a + b)\<^sup>2\<close> (and
  \<open>2 \<pi> a\<close> for a circle), the displayed pair \<open>(n, d)\<close> has \<open>d\<close> in \<open>1..1000\<close> and minimises
  \<open>|val - n / d|\<close> over all denominators in \<open>1..1000\<close> and all integers \<open>n\<close>; the outer
  circumference of a valid configuration is positive, so \<open>val\<close> is a true quotient. For
  \<open>R = 150\<close>, \<open>r = 52\<close> and circular gears \<open>val = 52 / 150\<close> and the displayed pair is
  \<open>(26, 75)\<close>; for the same radii with aspects 0.6 and 1.5 it is \<open>(223, 414)\<close>.
\<close>

theorem ratio_text_minimises:
  "(numerator cfg = Some n \<and> denominator cfg = Some d \<and> n \<noteq> 0 \<and> d \<noteq> 0 \<longrightarrow>
      ratioText cfg = (n, d))
   \<and> (numerator cfg \<in> {None, Some 0} \<or> denominator cfg \<in> {None, Some 0} \<longrightarrow>
        (let val = ratioValue cfg; b = searchRatio val
         in ratioText cfg = (real_of_int (bestN b), real (bestD b))
          \<and> 1 \<le> bestD b \<and> bestD b \<le> 1000
          \<and> (\<forall>d'\<in>{1..1000}. \<forall>m.
                \<bar>val - real_of_int (bestN b) / real (bestD b)\<bar>
                  \<le> \<bar>val - real_of_int m / real d'\<bar>)))
   \<and> (valid_config cfg \<longrightarrow>
        0 < calculateEllipseCircumference (outerRadius cfg) (statorAspect cfg))
   \<and> (let val = ratioValue unhintedConfig; b = searchRatio val
       in val = 52 / 150
        \<and> ratioText unhintedConfig = (real_of_int (bestN b), real (bestD b))
        \<and> \<bar>val - real_of_int (bestN b) / real (bestD b)\<bar> \<le> \<bar>val - 26 / 75\<bar>)
   \<and> ratioValue cfg =
       (let C = (\<lambda>radius aspect.
                  if aspect = 1 then 2 * pi * radius
                  else (let a = radius; b = radius * aspect; h = (a - b)\<^sup>2 / (a + b)\<^sup>2
                        in pi * (a + b) * (1 + (3 * h) / (10 + sqrt (4 - 3 * h)))))
        in C (innerRadius cfg) (rotorAspect cfg) / C (outerRadius cfg) (statorAspect cfg))
   \<and> ratioText unhintedConfig = (26, 75)
   \<and> \<bar>ratioValue ellipticConfig - 223 / 414\<bar> < 1 / 828000
   \<and> ratioText ellipticConfig = (223, 414)"
proof -
  have 1: "ratioText cfg = (n, d)"
    if "numerator cfg = Some n" "denominator cfg = Some d" "n \<noteq> 0" "d \<noteq> 0"
    using that by (simp add: ratioText_def)
  have 2: "(let val = ratioValue cfg; b = searchRatio val
         in ratioText cfg = (real_of_int (bestN b), real (bestD b))
          \<and> 1 \<le> bestD b \<and> bestD b \<le> 1000
          \<and> (\<forall>d'\<in>{1..1000}. \<forall>m.
                \<bar>val - real_of_int (bestN b) / real (bestD b)\<bar>
                  \<le> \<bar>val - real_of_int m / real d'\<bar>))"
    if "numerator cfg \<in> {None, Some 0} \<or> denominator cfg \<in> {None, Some 0}"
    using ratioText_search [OF that] searchRatio_minimal [of "ratioValue cfg"]
    unfolding Let_def by blast
  have 3: "0 < calculateEllipseCircumference (outerRadius cfg) (statorAspect cfg)"
    if "valid_config cfg"
    using that by (simp add: valid_config_def circumference_pos)
  have "numerator unhintedConfig = None" by (simp add: unhintedConfig_def)
  then have t: "ratioText unhintedConfig =
      (real_of_int (bestN (searchRatio (ratioValue unhintedConfig))),
       real (bestD (searchRatio (ratioValue unhintedConfig))))"
    by (simp add: ratioText_search)
  have "(75::nat) \<in> {1..1000}" by simp
  with searchRatio_minimal [of "ratioValue unhintedConfig"]
  have "\<bar>ratioValue unhintedConfig
          - real_of_int (bestN (searchRatio (ratioValue unhintedConfig)))
            / real (bestD (searchRatio (ratioValue unhintedConfig)))\<bar>
        \<le> \<bar>ratioValue unhintedConfig - real_of_int 26 / real 75\<bar>"
    by blast
  moreover have "real_of_int 26 / real 75 = (26 / 75 :: real)" by simp
  ultimately have m: "\<bar>ratioValue unhintedConfig
          - real_of_int (bestN (searchRatio (ratioValue unhintedConfig)))
            / real (bestD (searchRatio (ratioValue unhintedConfig)))\<bar>
        \<le> \<bar>ratioValue unhintedConfig - 26 / 75\<bar>"
    by (simp only:)
  from ratioValue_unhinted t m
  have 4: "(let val = ratioValue unhintedConfig; b = searchRatio val
       in val = 52 / 150
        \<and> ratioText unhintedConfig = (real_of_int (bestN b), real (bestD b))
        \<and> \<bar>val - real_of_int (bestN b) / real (bestD b)\<bar> \<le> \<bar>val - 26 / 75\<bar>)"
    unfolding Let_def by (intro conjI)
  have 5: "ratioValue cfg =
       (let C = (\<lambda>radius aspect.
                  if aspect = 1 then 2 * pi * radius
                  else (let a = radius; b = radius * aspect; h = (a - b)\<^sup>2 / (a + b)\<^sup>2
                        in pi * (a + b) * (1 + (3 * h) / (10 + sqrt (4 - 3 * h)))))
        in C (innerRadius cfg) (rotorAspect cfg) / C (outerRadius cfg) (statorAspect cfg))"
    by (simp add: ratioValue_def calculateEllipseCircumference_def Let_def)
  have 6: "ratioText unhintedConfig = (26, 75)"
    by (simp add: t ratioValue_unhinted searchRatio_circular)
  have "numerator ellipticConfig = None" by (simp add: ellipticConfig_def)
  then have 7: "ratioText ellipticConfig = (223, 414)"
    by (simp add: ratioText_search searchRatio_elliptic)
  from 1 2 3 4 5 6 7 ratioValue_elliptic show ?thesis by blast
qed

theorem ratio_text_minimises_witness:
  "numerator DEFAULT_CONFIG = Some 2 \<and> denominator DEFAULT_CONFIG = Some 3
   \<and> (2::real) \<noteq> 0 \<and> (3::real) \<noteq> 0 \<and> ratioText DEFAULT_CONFIG = (2, 3)
   \<and> valid_config DEFAULT_CONFIG \<and> 0 < calculateEllipseCircumference 150 1
   \<and> numerator unhintedConfig = None \<and> (75::nat) \<in> {1..1000}
   \<and> real_of_int (bestN (searchRatio (ratioValue unhintedConfig)))
        / real (bestD (searchRatio (ratioValue unhintedConfig))) = 26 / 75"
proof -
  note a = ratio_text_minimises [of DEFAULT_CONFIG 2 3, unfolded Let_def]
  note b = ratio_text_minimises [of unhintedConfig 0 0, unfolded Let_def]
  have h: "numerator DEFAULT_CONFIG = Some 2" "denominator DEFAULT_CONFIG = Some 3"
    by (simp_all add: DEFAULT_CONFIG_def)
  have v: "valid_config DEFAULT_CONFIG" by (simp add: valid_config_def DEFAULT_CONFIG_def)
  have n: "numerator unhintedConfig = None" by (simp add: unhintedConfig_def)
  from a h have 1: "ratioText DEFAULT_CONFIG = (2, 3)" by simp
  from a v have 2: "0 < calculateEllipseCircumference 150 1"
    by (simp add: DEFAULT_CONFIG_def)
  from b n have q: "\<forall>d'\<in>{1..1000}. \<forall>m.
      \<bar>ratioValue unhintedConfig - real_of_int (bestN (searchRatio (ratioValue unhintedConfig)))
        / real (bestD (searchRatio (ratioValue unhintedConfig)))\<bar>
        \<le> \<bar>ratioValue unhintedConfig - real_of_int m / real d'\<bar>"
    by blast
  have "\<bar>ratioValue unhintedConfig - real_of_int (bestN (searchRatio (ratioValue unhintedConfig)))
        / real (bestD (searchRatio (ratioValue unhintedConfig)))\<bar>
        \<le> \<bar>ratioValue unhintedConfig - 26 / 75\<bar>"
    using q [rule_format, of 75 26] by simp
  then have 3: "real_of_int (bestN (searchRatio (ratioValue unhintedConfig)))
        / real (bestD (searchRatio (ratioValue unhintedConfig))) = 26 / 75"
    unfolding ratioValue_unhinted by simp
  from h v n 1 2 3 show ?thesis by simp
qed

end
